theory Spec2Isabelle
  imports Main
begin

section \<open>Data layer types (lib/data/types.ts)\<close>

text \<open>
  The TypeScript store knows three sync states; the column's CHECK constraint in
  \<^verbatim>\<open>initDatabase\<close> admits exactly these three strings.
\<close>

datatype SyncStatus = PENDING | SYNCED | FAILED

text \<open>
  \<^verbatim>\<open>RecordEntity\<close>: one row of the \<^verbatim>\<open>records\<close> table. The record type is
  polymorphic in the status type because the Kotlin entity has the same columns over
  a four-valued enum. The primary key column \<^verbatim>\<open>id\<close> is called \<open>id'\<close> here, since
  \<open>id\<close> is the identity function of HOL. Timestamps are milliseconds.
\<close>

record 's RecordEntity =
  id' :: string
  title :: string
  body :: string
  createdAt :: int
  syncStatus :: 's
  remoteId :: "int option"
  lastSyncAttempt :: "int option"
  syncError :: "string option"

datatype CreatePostDTO =
  CreatePostDTO (dto_title: string) (dto_body: string) (dto_userId: int)

datatype PostResponseDTO =
  PostResponseDTO (resp_id: int) (resp_title: string) (resp_body: string) (resp_userId: int)

text \<open>The domain model \<^verbatim>\<open>Record\<close>: dates are kept as their millisecond values.\<close>

datatype Record =
  Record (rec_id: string) (rec_title: string) (rec_body: string) (rec_createdAt: int)
    (rec_syncStatus: SyncStatus) (rec_remoteId: "int option")
    (rec_lastSyncAttempt: "int option") (rec_syncError: "string option")

datatype SyncResult =
  SyncResult (res_recordId: string) (res_success: bool) (res_error: "string option")
    (res_remoteId: "int option")

text \<open>
  \<^verbatim>\<open>Result<T>\<close> is \<open>error + T\<close>: \<open>Inl\<close> is \<^verbatim>\<open>{success: false, error}\<close>.
  An error is a \<^verbatim>\<open>ValidationError\<close> or a plain \<^verbatim>\<open>Error\<close>, with its message.
\<close>

datatype error = ValidationError string | Error string

section \<open>API layer (lib/data/api.ts)\<close>

datatype ApiErrorType = NETWORK_ERROR | TIMEOUT | CLIENT_ERROR | SERVER_ERROR | UNKNOWN_ERROR

fun typeName :: "ApiErrorType \<Rightarrow> string" where
  "typeName NETWORK_ERROR = ''NETWORK_ERROR''"
| "typeName TIMEOUT = ''TIMEOUT''"
| "typeName CLIENT_ERROR = ''CLIENT_ERROR''"
| "typeName SERVER_ERROR = ''SERVER_ERROR''"
| "typeName UNKNOWN_ERROR = ''UNKNOWN_ERROR''"

datatype ApiError =
  ApiError (errorType: ApiErrorType) (statusCode: "int option") (message: string)

text \<open>
  The constructor of \<^verbatim>\<open>ApiError\<close> calls \<^verbatim>\<open>super(message || type)\<close>: an absent or
  empty message is replaced by the name of the type.
\<close>

definition newApiError :: "ApiErrorType \<Rightarrow> int option \<Rightarrow> string option \<Rightarrow> ApiError" where
  "newApiError t code msg =
     ApiError t code (case msg of None \<Rightarrow> typeName t | Some m \<Rightarrow> if m = [] then typeName t else m)"

text \<open>
  What \<^verbatim>\<open>apiClient.post\<close> can throw: an axios error (the status of the response when
  one was received, the error code, the message), another \<^verbatim>\<open>Error\<close>, or a value
  that is no \<^verbatim>\<open>Error\<close> at all.
\<close>

datatype thrown =
    AxiosError "int option" "string option" string
  | OtherError string
  | NonError

datatype post_outcome = Resolved PostResponseDTO | Rejected thrown

text \<open>Decimal digits of a number, for the template literals \<^verbatim>\<open>${status}\<close>.\<close>

function show_nat :: "nat \<Rightarrow> string" where
  "show_nat n =
     (if n < 10 then [''0123456789'' ! n]
      else show_nat (n div 10) @ [''0123456789'' ! (n mod 10)])"
  by pat_completeness auto
termination
  by (relation "measure (\<lambda>n. n)") auto

definition show_int :: "int \<Rightarrow> string" where
  "show_int i = (if i < 0 then CHR ''-'' # show_nat (nat (- i)) else show_nat (nat i))"

fun parseAxiosError :: "thrown \<Rightarrow> ApiError" where
  "parseAxiosError (AxiosError None code msg) =
     (if code = Some ''ECONNABORTED''
      then newApiError TIMEOUT None (Some ''Request timeout'')
      else newApiError NETWORK_ERROR None
             (Some (''Network error: '' @ (if msg = [] then ''No connection'' else msg))))"
| "parseAxiosError (AxiosError (Some status) code msg) =
     (if 400 \<le> status \<and> status < 500
      then newApiError CLIENT_ERROR (Some status) (Some (''Client error: '' @ show_int status))
      else if 500 \<le> status
      then newApiError SERVER_ERROR (Some status) (Some (''Server error: '' @ show_int status))
      else newApiError UNKNOWN_ERROR None (Some msg))"
| "parseAxiosError (OtherError msg) = newApiError UNKNOWN_ERROR None (Some msg)"
| "parseAxiosError NonError = newApiError UNKNOWN_ERROR None (Some ''Unknown error'')"

text \<open>
  \<^verbatim>\<open>createPost\<close>: the first argument is \<^verbatim>\<open>apiClient.post('/posts', _)\<close>, the remote
  service as this call meets it. A thrown value is parsed and thrown again.
\<close>

definition createPost :: "(CreatePostDTO \<Rightarrow> post_outcome) \<Rightarrow> CreatePostDTO \<Rightarrow> ApiError + PostResponseDTO" where
  "createPost post data =
     (case post data of Resolved r \<Rightarrow> Inr r | Rejected t \<Rightarrow> Inl (parseAxiosError t))"

definition isRetryableError :: "ApiError \<Rightarrow> bool" where
  "isRetryableError e =
     (errorType e = NETWORK_ERROR \<or> errorType e = TIMEOUT \<or> errorType e = SERVER_ERROR)"

definition isPermanentError :: "ApiError \<Rightarrow> bool" where
  "isPermanentError e = (errorType e = CLIENT_ERROR)"

section \<open>Strings\<close>

text \<open>
  A string is the list of its code units, which is what \<^verbatim>\<open>length\<close> counts in
  JavaScript. \<^verbatim>\<open>String.prototype.trim\<close> strips white space and line terminators from
  both ends; of those, a \<open>char\<close> can hold tab, line feed, vertical tab, form feed,
  carriage return, space and the no-break space.
\<close>

definition isWhiteSpace :: "char \<Rightarrow> bool" where
  "isWhiteSpace c =
     (c = CHR 0x09 \<or> c = CHR 0x0A \<or> c = CHR 0x0B \<or> c = CHR 0x0C \<or> c = CHR 0x0D
      \<or> c = CHR 0x20 \<or> c = CHR 0xA0)"

definition trim :: "string \<Rightarrow> string" where
  "trim s = rev (dropWhile isWhiteSpace (rev (dropWhile isWhiteSpace s)))"

section \<open>Mappers (lib/data/mappers.ts)\<close>

text \<open>
  \<^verbatim>\<open>entityToRecord\<close>: \<^verbatim>\<open>entity.lastSyncAttempt ? new Date(..) : null\<close> maps the
  timestamp 0 to null as well, since 0 is falsy.
\<close>

definition entityToRecord :: "SyncStatus RecordEntity \<Rightarrow> Record" where
  "entityToRecord entity =
     Record (id' entity) (title entity) (body entity) (createdAt entity) (syncStatus entity)
       (remoteId entity)
       (case lastSyncAttempt entity of None \<Rightarrow> None | Some t \<Rightarrow> if t = 0 then None else Some t)
       (syncError entity)"

definition entityToCreatePostDTO :: "'s RecordEntity \<Rightarrow> CreatePostDTO" where
  "entityToCreatePostDTO entity = CreatePostDTO (title entity) (body entity) 1"

text \<open>\<^verbatim>\<open>mergePostResponse\<close>; the last argument is the value of \<^verbatim>\<open>Date.now()\<close>.\<close>

definition mergePostResponse ::
  "SyncStatus RecordEntity \<Rightarrow> PostResponseDTO \<Rightarrow> int \<Rightarrow> SyncStatus RecordEntity" where
  "mergePostResponse entity response now =
     entity\<lparr>remoteId := Some (resp_id response), syncStatus := SYNCED,
            lastSyncAttempt := Some now, syncError := None\<rparr>"

section \<open>Database layer (lib/data/database.ts)\<close>

text \<open>
  The table is the list of its rows, in insertion order. The engine runs against an
  initialised database whose statements succeed; the one statement that fails by
  itself, an INSERT of a primary key that exists, is modelled.
\<close>

definition insertRecord :: "'s RecordEntity list \<Rightarrow> 's RecordEntity \<Rightarrow> error + 's RecordEntity list" where
  "insertRecord tbl record =
     (if id' record \<in> set (map id' tbl) then Inl (Error ''Failed to insert record'')
      else Inr (tbl @ [record]))"

text \<open>\<^verbatim>\<open>UPDATE records SET title, body, syncStatus, remoteId, lastSyncAttempt, syncError WHERE id\<close>\<close>

definition updateRecord :: "'s RecordEntity list \<Rightarrow> 's RecordEntity \<Rightarrow> 's RecordEntity list" where
  "updateRecord tbl record =
     map (\<lambda>row. if id' row = id' record
                then row\<lparr>title := title record, body := body record,
                         syncStatus := syncStatus record, remoteId := remoteId record,
                         lastSyncAttempt := lastSyncAttempt record,
                         syncError := syncError record\<rparr>
                else row) tbl"

text \<open>
  \<^verbatim>\<open>updateSyncStatus(id, syncStatus, remoteId?, syncError?)\<close>: the two optional
  arguments are written as \<^verbatim>\<open>remoteId ?? null\<close> and \<^verbatim>\<open>syncError ?? null\<close>, and
  \<^verbatim>\<open>lastSyncAttempt\<close> as \<^verbatim>\<open>Date.now()\<close> (the last argument here).
\<close>

definition updateSyncStatus ::
  "'s RecordEntity list \<Rightarrow> string \<Rightarrow> 's \<Rightarrow> int option \<Rightarrow> string option \<Rightarrow> int \<Rightarrow> 's RecordEntity list" where
  "updateSyncStatus tbl i status rid err now =
     map (\<lambda>row. if id' row = i
                then row\<lparr>syncStatus := status, remoteId := rid,
                         lastSyncAttempt := Some now, syncError := err\<rparr>
                else row) tbl"

text \<open>\<^verbatim>\<open>SELECT * FROM records ORDER BY createdAt DESC\<close> (rows of equal age keep table order).\<close>

definition getAllRecords :: "'s RecordEntity list \<Rightarrow> 's RecordEntity list" where
  "getAllRecords tbl = sort_key (\<lambda>row. - createdAt row) tbl"

definition getRecordsByStatus :: "'s RecordEntity list \<Rightarrow> 's \<Rightarrow> 's RecordEntity list" where
  "getRecordsByStatus tbl status =
     sort_key (\<lambda>row. - createdAt row) (filter (\<lambda>row. syncStatus row = status) tbl)"

definition getRecordById :: "'s RecordEntity list \<Rightarrow> string \<Rightarrow> 's RecordEntity option" where
  "getRecordById tbl i = find (\<lambda>row. id' row = i) tbl"

definition getRecordCountByStatus :: "'s RecordEntity list \<Rightarrow> 's \<Rightarrow> nat" where
  "getRecordCountByStatus tbl status = length (filter (\<lambda>row. syncStatus row = status) tbl)"

section \<open>Repository layer (lib/data/repository.ts)\<close>

text \<open>
  The world of the engine: the table, the clock that \<^verbatim>\<open>Date.now()\<close> reads, and a
  journal of the side effects in the order they happen: a POST to the remote service
  for a record, and a status written to a row.
\<close>

datatype 's effect = ApiPost string | StatusWrite string 's

record 's world =
  rows :: "'s RecordEntity list"
  clock :: int
  journal :: "'s effect list"

fun isApiPost :: "'s effect \<Rightarrow> bool" where
  "isApiPost (ApiPost i) = True"
| "isApiPost (StatusWrite i s) = False"

definition posts :: "'s world \<Rightarrow> nat" where
  "posts w = length (filter isApiPost (journal w))"

text \<open>
  The remote service: what the \<open>n\<close>-th POST of the history answers to the DTO it is
  sent. Nothing is assumed about it.
\<close>

type_synonym remote = "nat \<Rightarrow> CreatePostDTO \<Rightarrow> post_outcome"

text \<open>\<^verbatim>\<open>repository.createRecord\<close>; \<open>uuid\<close> is the value of \<^verbatim>\<open>uuidv4()\<close>.\<close>

definition repository_createRecord ::
  "string \<Rightarrow> string \<Rightarrow> string \<Rightarrow> SyncStatus world \<Rightarrow> SyncStatus world \<times> (error + Record)" where
  "repository_createRecord uuid ttl bdy w =
     (let entity = \<lparr>id' = uuid, title = trim ttl, body = trim bdy, createdAt = clock w,
                     syncStatus = PENDING, remoteId = None, lastSyncAttempt = None,
                     syncError = None\<rparr>
      in case insertRecord (rows w) entity of
           Inl e \<Rightarrow> (w, Inl e)
         | Inr tbl \<Rightarrow> (w\<lparr>rows := tbl\<rparr>, Inr (entityToRecord entity)))"

text \<open>
  \<^verbatim>\<open>syncRecord\<close>. The \<^verbatim>\<open>try\<close> block fetches the row, returns early when it is
  missing or already synced, posts the DTO and stores the merged row; the \<^verbatim>\<open>catch\<close>
  block stores the status chosen from the error's class, with the error's message.
  The remote service answers as the \<open>posts w\<close>-th call of the history.
\<close>

definition syncRecord :: "remote \<Rightarrow> string \<Rightarrow> SyncStatus world \<Rightarrow> SyncStatus world \<times> SyncResult" where
  "syncRecord remote recordId w =
     (case getRecordById (rows w) recordId of
        None \<Rightarrow> (w, SyncResult recordId False (Some ''Record not found'') None)
      | Some entity \<Rightarrow>
          if syncStatus entity = SYNCED \<and> remoteId entity \<noteq> None
          then (w, SyncResult recordId True None (remoteId entity))
          else
            (case createPost (remote (posts w)) (entityToCreatePostDTO entity) of
               Inr response \<Rightarrow>
                 (let updatedEntity = mergePostResponse entity response (clock w)
                  in (w\<lparr>rows := updateRecord (rows w) updatedEntity,
                         journal := journal w @
                           [ApiPost recordId,
                            StatusWrite (id' updatedEntity) (syncStatus updatedEntity)]\<rparr>,
                      SyncResult recordId True None (Some (resp_id response))))
             | Inl err \<Rightarrow>
                 (let newStatus = (if isPermanentError err then FAILED else PENDING);
                      errorMessage = message err
                  in (w\<lparr>rows := updateSyncStatus (rows w) recordId newStatus None
                                   (Some errorMessage) (clock w),
                         journal := journal w @
                           [ApiPost recordId, StatusWrite recordId newStatus]\<rparr>,
                      SyncResult recordId False (Some errorMessage) None))))"

text \<open>
  \<^verbatim>\<open>syncRecord\<close> suspends three times: at \<^verbatim>\<open>await db.getRecordById\<close>, at
  \<^verbatim>\<open>await api.createPost\<close> and at the \<^verbatim>\<open>await\<close> of its write. The code that runs
  between two suspensions runs without interruption. \<open>syncRecord_checked\<close> is the code
  from the moment the row has been read to the moment the POST is issued: it returns
  the early result, or it issues the POST and keeps the row it has read and the number
  of the call. \<open>syncRecord_settle\<close> is the code from the moment the POST has resolved or
  thrown: it writes the row and returns the result.
\<close>

definition syncRecord_checked ::
  "string \<Rightarrow> SyncStatus RecordEntity option \<Rightarrow> SyncStatus world
     \<Rightarrow> SyncStatus world \<times> (SyncResult + SyncStatus RecordEntity \<times> nat)" where
  "syncRecord_checked recordId found w =
     (case found of
        None \<Rightarrow> (w, Inl (SyncResult recordId False (Some ''Record not found'') None))
      | Some entity \<Rightarrow>
          if syncStatus entity = SYNCED \<and> remoteId entity \<noteq> None
          then (w, Inl (SyncResult recordId True None (remoteId entity)))
          else (w\<lparr>journal := journal w @ [ApiPost recordId]\<rparr>, Inr (entity, posts w)))"

definition syncRecord_settle ::
  "remote \<Rightarrow> string \<Rightarrow> SyncStatus RecordEntity \<Rightarrow> nat \<Rightarrow> SyncStatus world
     \<Rightarrow> SyncStatus world \<times> SyncResult" where
  "syncRecord_settle remote recordId entity n w =
     (case createPost (remote n) (entityToCreatePostDTO entity) of
        Inr response \<Rightarrow>
          (let updatedEntity = mergePostResponse entity response (clock w)
           in (w\<lparr>rows := updateRecord (rows w) updatedEntity,
                  journal := journal w @
                    [StatusWrite (id' updatedEntity) (syncStatus updatedEntity)]\<rparr>,
               SyncResult recordId True None (Some (resp_id response))))
      | Inl err \<Rightarrow>
          (let newStatus = (if isPermanentError err then FAILED else PENDING);
               errorMessage = message err
           in (w\<lparr>rows := updateSyncStatus (rows w) recordId newStatus None
                            (Some errorMessage) (clock w),
                  journal := journal w @ [StatusWrite recordId newStatus]\<rparr>,
               SyncResult recordId False (Some errorMessage) None)))"

text \<open>
  The loop of \<^verbatim>\<open>syncPendingRecords\<close>: one \<^verbatim>\<open>syncRecord\<close> per pending entity, in
  the order of the query, each followed by the delay of 100 milliseconds.
\<close>

fun syncLoop ::
  "remote \<Rightarrow> SyncStatus RecordEntity list \<Rightarrow> SyncStatus world \<Rightarrow> SyncStatus world \<times> SyncResult list" where
  "syncLoop remote [] w = (w, [])"
| "syncLoop remote (entity # rest) w =
     (case syncRecord remote (id' entity) w of
        (w1, result) \<Rightarrow>
          (case syncLoop remote rest (w1\<lparr>clock := clock w1 + 100\<rparr>) of
             (w2, results) \<Rightarrow> (w2, result # results)))"

definition syncPendingRecords :: "remote \<Rightarrow> SyncStatus world \<Rightarrow> SyncStatus world \<times> SyncResult list" where
  "syncPendingRecords remote w =
     (let pendingEntities = getRecordsByStatus (rows w) PENDING
      in if pendingEntities = [] then (w, []) else syncLoop remote pendingEntities w)"

text \<open>
  The first loop of \<^verbatim>\<open>retryFailedSyncs\<close> (``Mark as pending''): one
  \<^verbatim>\<open>updateSyncStatus(entity.id, 'PENDING')\<close> per failed entity.
\<close>

fun markAsPending :: "SyncStatus RecordEntity list \<Rightarrow> SyncStatus world \<Rightarrow> SyncStatus world" where
  "markAsPending [] w = w"
| "markAsPending (entity # rest) w =
     markAsPending rest
       (w\<lparr>rows := updateSyncStatus (rows w) (id' entity) PENDING None None (clock w),
          journal := journal w @ [StatusWrite (id' entity) PENDING]\<rparr>)"

definition retryFailedSyncs :: "remote \<Rightarrow> SyncStatus world \<Rightarrow> SyncStatus world \<times> SyncResult list" where
  "retryFailedSyncs remote w =
     (let failedEntities = getRecordsByStatus (rows w) FAILED
      in if failedEntities = [] then (w, [])
         else syncPendingRecords remote (markAsPending failedEntities w))"

section \<open>Use cases (lib/domain/use-cases.ts)\<close>

text \<open>\<^verbatim>\<open>validateRecordInput\<close>: \<open>Some e\<close> is the error it throws, \<open>None\<close> a normal return.\<close>

definition validateRecordInput :: "string \<Rightarrow> string \<Rightarrow> error option" where
  "validateRecordInput ttl bdy =
     (if ttl = [] \<or> length (trim ttl) = 0 then Some (ValidationError ''Title is required'')
      else if length (trim ttl) > 200
      then Some (ValidationError ''Title must be 200 characters or less'')
      else if bdy = [] \<or> length (trim bdy) = 0 then Some (ValidationError ''Body is required'')
      else if length (trim bdy) > 5000
      then Some (ValidationError ''Body must be 5000 characters or less'')
      else None)"

definition createRecord ::
  "string \<Rightarrow> string \<Rightarrow> string \<Rightarrow> SyncStatus world \<Rightarrow> SyncStatus world \<times> (error + Record)" where
  "createRecord uuid ttl bdy w =
     (case validateRecordInput ttl bdy of
        Some e \<Rightarrow> (w, Inl e)
      | None \<Rightarrow> repository_createRecord uuid ttl bdy w)"

section \<open>Auxiliary definitions\<close>

text \<open>
  The row that \<^verbatim>\<open>syncRecord\<close> leaves for an entity it has sent, given what
  \<^verbatim>\<open>createPost\<close> returned or threw and the time of the write. Used to state lemmas.
\<close>

definition settled ::
  "SyncStatus RecordEntity \<Rightarrow> ApiError + PostResponseDTO \<Rightarrow> int \<Rightarrow> SyncStatus RecordEntity" where
  "settled e out now =
     (case out of
        Inr response \<Rightarrow>
          e\<lparr>syncStatus := SYNCED, remoteId := Some (resp_id response),
            lastSyncAttempt := Some now, syncError := None\<rparr>
      | Inl err \<Rightarrow>
          e\<lparr>syncStatus := (if isPermanentError err then FAILED else PENDING), remoteId := None,
            lastSyncAttempt := Some now, syncError := Some (message err)\<rparr>)"

text \<open>Concrete values for the worked examples below.\<close>

definition exRow :: "string \<Rightarrow> int \<Rightarrow> 's \<Rightarrow> 's RecordEntity" where
  "exRow i t s = \<lparr>id' = i, title = ''A'', body = ''B'', createdAt = t, syncStatus = s,
     remoteId = None, lastSyncAttempt = None, syncError = None\<rparr>"

definition exWorld :: "SyncStatus world" where
  "exWorld = \<lparr>rows = [exRow ''r1'' 1 PENDING, exRow ''r2'' 2 PENDING], clock = 1000, journal = []\<rparr>"

definition exRemote :: remote where
  "exRemote n dto = (if n = 0 then Resolved (PostResponseDTO 101 (dto_title dto) (dto_body dto) 1)
     else Rejected (AxiosError None (Some ''ECONNABORTED'') ''timeout of 10000ms exceeded''))"

definition exFailed :: "SyncStatus world" where
  "exFailed = \<lparr>rows = [(exRow ''r1'' 1 FAILED)\<lparr>lastSyncAttempt := Some 500,
                          syncError := Some ''Client error: 422''\<rparr>,
                        exRow ''r2'' 2 SYNCED\<lparr>remoteId := Some 101\<rparr>],
     clock = 1000, journal = []\<rparr>"

section \<open>Sequences of operations\<close>

text \<open>
  What a caller can do to the engine, one operation after the other: create a record
  (\<^verbatim>\<open>createRecord\<close>, with the identifier \<^verbatim>\<open>uuidv4()\<close> draws), run a sync pass
  (\<^verbatim>\<open>syncRecords\<close>, which forwards to \<^verbatim>\<open>syncPendingRecords\<close>), retry the failed
  records (\<^verbatim>\<open>retryFailedSyncs\<close>), write a status to a row directly
  (\<^verbatim>\<open>updateSyncStatus\<close> of the database layer), and let time pass.
  The engine's own operations are all but the direct status write.
  Here every operation runs to its end before the next one starts: a pass of \<open>run\<close>
  never overlaps another. Passes that overlap, which the triggers of the application
  can start, are the subject of the section on triggers below.
\<close>

datatype op =
    CreateRecord string string string
  | SyncNow
  | RetryFailed
  | UpdateSyncStatus string SyncStatus "int option" "string option"
  | Tick int

fun step :: "remote \<Rightarrow> op \<Rightarrow> SyncStatus world \<Rightarrow> SyncStatus world" where
  "step remote (CreateRecord uuid ttl bdy) w = fst (createRecord uuid ttl bdy w)"
| "step remote SyncNow w = fst (syncPendingRecords remote w)"
| "step remote RetryFailed w = fst (retryFailedSyncs remote w)"
| "step remote (UpdateSyncStatus i status rid err) w =
     w\<lparr>rows := updateSyncStatus (rows w) i status rid err (clock w),
       journal := journal w @ [StatusWrite i status]\<rparr>"
| "step remote (Tick ms) w = w\<lparr>clock := clock w + ms\<rparr>"

fun run :: "remote \<Rightarrow> op list \<Rightarrow> SyncStatus world \<Rightarrow> SyncStatus world" where
  "run remote [] w = w"
| "run remote (x # xs) w = run remote xs (step remote x w)"

fun isEngineOp :: "op \<Rightarrow> bool" where
  "isEngineOp (UpdateSyncStatus i status rid err) = False"
| "isEngineOp _ = True"

text \<open>The columns that are written once: the key and the content of a row.\<close>

definition content :: "'s RecordEntity \<Rightarrow> string \<times> string \<times> string \<times> int" where
  "content row = (id' row, title row, body row, createdAt row)"

text \<open>The world of a fresh installation, at time \<open>t0\<close>.\<close>

definition emptyWorld :: "int \<Rightarrow> SyncStatus world" where
  "emptyWorld t0 = \<lparr>rows = [], clock = t0, journal = []\<rparr>"

text \<open>Every row with a remote identifier is SYNCED.\<close>

definition remoteIdInv :: "SyncStatus RecordEntity list \<Rightarrow> bool" where
  "remoteIdInv tbl = list_all (\<lambda>row. remoteId row = None \<or> syncStatus row = SYNCED) tbl"

text \<open>A remote service that never answers in time, and a world with one pending record.\<close>

definition alwaysTimeout :: remote where
  "alwaysTimeout n dto = Rejected (AxiosError None (Some ''ECONNABORTED'') ''timeout of 10000ms exceeded'')"

definition exOne :: "SyncStatus world" where
  "exOne = \<lparr>rows = [exRow ''r1'' 1 PENDING], clock = 1000, journal = []\<rparr>"

section \<open>The Kotlin repository (data/local, data/repository, di)\<close>

text \<open>
  \<^verbatim>\<open>enum class SyncStatus { PENDING, SYNCING, SYNCED, FAILED }\<close>. The Kotlin
  \<^verbatim>\<open>RecordEntity\<close> has the columns of the TypeScript one, over this enum.
\<close>

datatype KSyncStatus = K_PENDING | K_SYNCING | K_SYNCED | K_FAILED

datatype PostRequestDTO =
  PostRequestDTO (req_title: string) (req_body: string) (req_userId: int)

text \<open>
  What \<^verbatim>\<open>apiService.createPost\<close> can throw, as \<^verbatim>\<open>syncRecord\<close> tells the cases apart:
  an \<^verbatim>\<open>HttpException\<close> with its code, an \<^verbatim>\<open>IOException\<close>, any other exception;
  each with its nullable message.
\<close>

datatype exception =
    HttpException int "string option"
  | IOException "string option"
  | Exception "string option"

fun exceptionMessage :: "exception \<Rightarrow> string option" where
  "exceptionMessage (HttpException code msg) = msg"
| "exceptionMessage (IOException msg) = msg"
| "exceptionMessage (Exception msg) = msg"

datatype call_outcome = Returned PostResponseDTO | Threw exception

type_synonym apiService = "nat \<Rightarrow> PostRequestDTO \<Rightarrow> call_outcome"

text \<open>The queries of \<^verbatim>\<open>RecordDao\<close>.\<close>

definition RecordDao_getRecordById ::
  "KSyncStatus RecordEntity list \<Rightarrow> string \<Rightarrow> KSyncStatus RecordEntity option" where
  "RecordDao_getRecordById tbl i = find (\<lambda>row. id' row = i) tbl"


definition RecordDao_updateSyncStatus ::
  "KSyncStatus RecordEntity list \<Rightarrow> string \<Rightarrow> KSyncStatus \<Rightarrow> int \<Rightarrow> int option \<Rightarrow> string option
     \<Rightarrow> KSyncStatus RecordEntity list" where
  "RecordDao_updateSyncStatus tbl i status timestamp rid err =
     map (\<lambda>row. if id' row = i
                then row\<lparr>syncStatus := status, remoteId := rid,
                         lastSyncAttempt := Some timestamp, syncError := err\<rparr>
                else row) tbl"

text \<open>
  \<^verbatim>\<open>RecordRepositoryImpl.syncRecord\<close>. \<open>Inr ()\<close> is \<^verbatim>\<open>Result.success(Unit)\<close>, \<open>Inl e\<close>
  is \<^verbatim>\<open>Result.failure(e)\<close>. The default arguments of \<^verbatim>\<open>updateSyncStatus\<close>
  (\<^verbatim>\<open>remoteId = null\<close>, \<^verbatim>\<open>error = null\<close>) are written out.
\<close>

definition RecordRepositoryImpl_syncRecord ::
  "apiService \<Rightarrow> string \<Rightarrow> KSyncStatus world \<Rightarrow> KSyncStatus world \<times> (exception + unit)" where
  "RecordRepositoryImpl_syncRecord api recordId w =
     (case RecordDao_getRecordById (rows w) recordId of
        None \<Rightarrow> (w, Inl (Exception (Some ''Record not found'')))
      | Some record \<Rightarrow>
          if syncStatus record = K_SYNCED then (w, Inr ())
          else
            (let w1 = w\<lparr>rows := RecordDao_updateSyncStatus (rows w) recordId K_SYNCING (clock w)
                                    None None,
                         journal := journal w @ [StatusWrite recordId K_SYNCING]\<rparr>
             in case api (posts w1) (PostRequestDTO (title record) (body record) 1) of
                  Returned response \<Rightarrow>
                    (w1\<lparr>rows := RecordDao_updateSyncStatus (rows w1) recordId K_SYNCED (clock w1)
                                    (Some (resp_id response)) None,
                        journal := journal w1 @ [ApiPost recordId, StatusWrite recordId K_SYNCED]\<rparr>,
                     Inr ())
                | Threw e \<Rightarrow>
                    (let isPermanent =
                           (case e of
                              HttpException code msg \<Rightarrow> 400 \<le> code \<and> code \<le> 499
                            | IOException msg \<Rightarrow> False
                            | Exception msg \<Rightarrow> False);
                         nextStatus = (if isPermanent then K_FAILED else K_PENDING)
                     in (w1\<lparr>rows := RecordDao_updateSyncStatus (rows w1) recordId nextStatus
                                        (clock w1) None (exceptionMessage e),
                            journal := journal w1 @
                              [ApiPost recordId, StatusWrite recordId nextStatus]\<rparr>,
                         Inl e))))"

text \<open>
  The same function in two parts. \<open>RecordRepositoryImpl_syncRecord_upToPost\<close> is the code
  up to the call of \<^verbatim>\<open>apiService.createPost\<close>: it returns the early result, or it
  has written SYNCING and calls the service with the request. The world it returns is
  the world while the call is in flight.
  \<open>RecordRepositoryImpl_syncRecord_afterPost\<close> is the code from the return or the throw
  of that call.
\<close>

definition RecordRepositoryImpl_syncRecord_upToPost ::
  "string \<Rightarrow> KSyncStatus world
     \<Rightarrow> KSyncStatus world \<times> ((exception + unit) + PostRequestDTO \<times> nat)" where
  "RecordRepositoryImpl_syncRecord_upToPost recordId w =
     (case RecordDao_getRecordById (rows w) recordId of
        None \<Rightarrow> (w, Inl (Inl (Exception (Some ''Record not found''))))
      | Some record \<Rightarrow>
          if syncStatus record = K_SYNCED then (w, Inl (Inr ()))
          else
            (let w1 = w\<lparr>rows := RecordDao_updateSyncStatus (rows w) recordId K_SYNCING (clock w)
                                    None None,
                         journal := journal w @ [StatusWrite recordId K_SYNCING]\<rparr>
             in (w1\<lparr>journal := journal w1 @ [ApiPost recordId]\<rparr>,
                 Inr (PostRequestDTO (title record) (body record) 1, posts w1))))"

definition RecordRepositoryImpl_syncRecord_afterPost ::
  "string \<Rightarrow> call_outcome \<Rightarrow> KSyncStatus world \<Rightarrow> KSyncStatus world \<times> (exception + unit)" where
  "RecordRepositoryImpl_syncRecord_afterPost recordId outcome w =
     (case outcome of
        Returned response \<Rightarrow>
          (w\<lparr>rows := RecordDao_updateSyncStatus (rows w) recordId K_SYNCED (clock w)
                         (Some (resp_id response)) None,
             journal := journal w @ [StatusWrite recordId K_SYNCED]\<rparr>,
           Inr ())
      | Threw e \<Rightarrow>
          (let isPermanent =
                 (case e of
                    HttpException code msg \<Rightarrow> 400 \<le> code \<and> code \<le> 499
                  | IOException msg \<Rightarrow> False
                  | Exception msg \<Rightarrow> False);
               nextStatus = (if isPermanent then K_FAILED else K_PENDING)
           in (w\<lparr>rows := RecordDao_updateSyncStatus (rows w) recordId nextStatus
                              (clock w) None (exceptionMessage e),
                  journal := journal w @ [StatusWrite recordId nextStatus]\<rparr>,
               Inl e)))"



section \<open>Process start (lib/data/database.ts, lib/database-provider.tsx)\<close>

text \<open>
  What a device keeps: the \<^verbatim>\<open>records\<close> table on disk, absent before the first start,
  and the module variable \<^verbatim>\<open>dbInstance\<close> of the running process, here whether it is set.
  A new process starts with \<^verbatim>\<open>dbInstance\<close> null and the table as the last process
  left it.
\<close>

record 's device =
  table :: "'s RecordEntity list option"
  dbInstance :: bool

definition processStart :: "'s device \<Rightarrow> 's device" where
  "processStart d = d\<lparr>dbInstance := False\<rparr>"

text \<open>
  \<^verbatim>\<open>initDatabase\<close>: returns the open instance if there is one; otherwise opens the
  database, runs \<^verbatim>\<open>CREATE TABLE IF NOT EXISTS\<close> and \<^verbatim>\<open>CREATE INDEX IF NOT EXISTS\<close>,
  and keeps the instance. No statement of it touches a row.
\<close>

definition initDatabase :: "SyncStatus device \<Rightarrow> SyncStatus device" where
  "initDatabase d =
     (if dbInstance d then d
      else d\<lparr>table := Some (case table d of None \<Rightarrow> [] | Some tbl \<Rightarrow> tbl),
             dbInstance := True\<rparr>)"

text \<open>The rows on disk; none while the table does not exist.\<close>

definition storedRows :: "'s device \<Rightarrow> 's RecordEntity list" where
  "storedRows d = (case table d of None \<Rightarrow> [] | Some tbl \<Rightarrow> tbl)"

text \<open>A Kotlin world with one pending record, and a remote service that accepts.\<close>

definition exKotlin :: "KSyncStatus world" where
  "exKotlin = \<lparr>rows = [exRow ''r1'' 1 K_PENDING], clock = 1000, journal = []\<rparr>"

definition exApi :: apiService where
  "exApi n dto = Returned (PostResponseDTO 101 (req_title dto) (req_body dto) (req_userId dto))"

section \<open>Triggers (lib/sync-provider.tsx, lib/sync/background-sync.ts, hooks/use-records.ts)\<close>

text \<open>
  A pass is asynchronous: it suspends at every \<^verbatim>\<open>await\<close>, and whatever else is ready
  (a trigger, another pass) runs before it resumes. The application is a state and
  the events that change it. A pass in flight is where it stands and the identifiers
  it has read as pending and has not started yet. It stands between two records
  (\<open>Idle\<close>), or at \<^verbatim>\<open>await db.getRecordById\<close> with the row the query has read
  (\<open>Read\<close>), or at \<^verbatim>\<open>await api.createPost\<close> with the row it holds and the number of
  the call (\<open>Post\<close>). A statement of the database takes effect when it is issued; the
  pass sees the result when it resumes.
\<close>

datatype phase =
    Idle
  | Read string "SyncStatus RecordEntity option"
  | Post string "SyncStatus RecordEntity" nat

text \<open>
  The state holds the world of the engine, the flag \<^verbatim>\<open>isSyncing\<close> of
  \<^verbatim>\<open>SyncProvider\<close> (read here as the value last set, the reading most favourable to
  the guard), the variable \<^verbatim>\<open>previouslyConnected\<close> of the network listener, whether
  the network is reachable, and the passes in flight, each with a mark that tells
  whether \<^verbatim>\<open>SyncProvider.triggerSync\<close> started it.
\<close>

record app =
  store :: "SyncStatus world"
  isSyncing :: bool
  previouslyConnected :: bool
  online :: bool
  inFlight :: "(bool \<times> phase \<times> string list) list"

text \<open>
  The events: a call of \<^verbatim>\<open>SyncProvider.triggerSync\<close>; a call of the use case
  \<^verbatim>\<open>syncRecords\<close> (the pull-to-refresh of the home screen, through \<^verbatim>\<open>useRecords\<close>);
  a network state reported to the listener of \<^verbatim>\<open>setupNetworkListener\<close>; the
  background task; and the \<open>k\<close>-th pass in flight resuming until its next suspension.
\<close>

datatype trigger =
    TriggerSync
  | SyncRecords
  | NetworkChange bool
  | BackgroundTask
  | Resume nat

text \<open>
  The start of \<^verbatim>\<open>syncPendingRecords\<close>: it reads the pending entities and will
  call \<^verbatim>\<open>syncRecord\<close> for the identifier of each. It checks no flag.
\<close>

definition startPass :: "bool \<Rightarrow> app \<Rightarrow> app" where
  "startPass guarded a =
     a\<lparr>inFlight := inFlight a @
          [(guarded, Idle, map id' (getRecordsByStatus (rows (store a)) PENDING))]\<rparr>"

text \<open>
  A pass resumes and runs to its next suspension. Between two records it calls
  \<^verbatim>\<open>syncRecord\<close> for the next identifier, which issues the query for the row; with
  no identifier left it ends (\<open>None\<close>). With the row read it runs
  \<open>syncRecord_checked\<close>; with the POST resolved or thrown it runs
  \<open>syncRecord_settle\<close>. A record that is done is followed by the delay of 100
  milliseconds.
\<close>

fun advance ::
  "remote \<Rightarrow> phase \<times> string list \<Rightarrow> SyncStatus world
     \<Rightarrow> SyncStatus world \<times> (phase \<times> string list) option" where
  "advance remote (Idle, []) w = (w, None)"
| "advance remote (Idle, i # rest) w = (w, Some (Read i (getRecordById (rows w) i), rest))"
| "advance remote (Read i found, rest) w =
     (case syncRecord_checked i found w of
        (w1, Inl result) \<Rightarrow> (w1\<lparr>clock := clock w1 + 100\<rparr>, Some (Idle, rest))
      | (w1, Inr (entity, n)) \<Rightarrow> (w1, Some (Post i entity n, rest)))"
| "advance remote (Post i entity n, rest) w =
     (case syncRecord_settle remote i entity n w of
        (w1, result) \<Rightarrow> (w1\<lparr>clock := clock w1 + 100\<rparr>, Some (Idle, rest)))"

text \<open>
  The \<open>k\<close>-th pass in flight resumes. When it ends, the \<^verbatim>\<open>finally\<close> block of
  \<^verbatim>\<open>triggerSync\<close> resets \<^verbatim>\<open>isSyncing\<close> if the pass was its own.
\<close>

definition resume :: "remote \<Rightarrow> nat \<Rightarrow> app \<Rightarrow> app" where
  "resume remote k a =
     (if k < length (inFlight a) then
        (case inFlight a ! k of
           (guarded, pass) \<Rightarrow>
             (case advance remote pass (store a) of
                (w1, None) \<Rightarrow>
                  a\<lparr>store := w1,
                    inFlight := take k (inFlight a) @ drop (Suc k) (inFlight a),
                    isSyncing := (if guarded then False else isSyncing a)\<rparr>
              | (w1, Some pass') \<Rightarrow>
                  a\<lparr>store := w1, inFlight := (inFlight a)[k := (guarded, pass')]\<rparr>))
      else a)"

text \<open>
  \<^verbatim>\<open>triggerSync\<close> returns at once when \<^verbatim>\<open>isSyncing\<close> is set; otherwise it sets the
  flag and calls \<^verbatim>\<open>triggerImmediateSync\<close>, which starts a pass if the network is
  reachable (and else returns, after which the flag is reset). The use case
  \<^verbatim>\<open>syncRecords\<close> calls \<^verbatim>\<open>syncPendingRecords\<close> directly. The network listener
  calls \<^verbatim>\<open>triggerImmediateSync\<close> when the network becomes reachable. The background
  task calls \<^verbatim>\<open>syncPendingRecords\<close> if the network is reachable.
\<close>

fun handle :: "remote \<Rightarrow> trigger \<Rightarrow> app \<Rightarrow> app" where
  "handle remote TriggerSync a =
     (if isSyncing a then a
      else if online a then startPass True (a\<lparr>isSyncing := True\<rparr>)
      else a)"
| "handle remote SyncRecords a = startPass False a"
| "handle remote (NetworkChange isConnected) a =
     (let a1 = a\<lparr>online := isConnected\<rparr>;
          a2 = (if isConnected \<and> \<not> previouslyConnected a1
                then (if online a1 then startPass False a1 else a1)
                else a1)
      in a2\<lparr>previouslyConnected := isConnected\<rparr>)"
| "handle remote BackgroundTask a = (if online a then startPass False a else a)"
| "handle remote (Resume k) a = resume remote k a"

fun handleAll :: "remote \<Rightarrow> trigger list \<Rightarrow> app \<Rightarrow> app" where
  "handleAll remote [] a = a"
| "handleAll remote (t # ts) a = handleAll remote ts (handle remote t a)"

text \<open>The application at rest, online, with one pending record.\<close>

definition exApp :: app where
  "exApp = \<lparr>store = exOne, isSyncing = False, previouslyConnected = False, online = True,
            inFlight = []\<rparr>"

text \<open>
  Three remote services: one that accepts every POST and assigns the identifiers 101,
  102, ... in the order of the calls; one that refuses the first POST with status 422
  and accepts the others; one that lets the second POST time out and accepts the
  others.
\<close>

definition acceptAll :: remote where
  "acceptAll n dto = Resolved (PostResponseDTO (101 + int n) (dto_title dto) (dto_body dto) 1)"

definition refuseFirst :: remote where
  "refuseFirst n dto =
     (if n = 0
      then Rejected (AxiosError (Some 422) (Some ''ERR_BAD_REQUEST'') ''Request failed with status code 422'')
      else acceptAll n dto)"

definition timeoutSecond :: remote where
  "timeoutSecond n dto = (if n = 1 then alwaysTimeout n dto else acceptAll n dto)"

text \<open>The status and the remote identifier of every row, in table order.\<close>

definition statuses :: "'s world \<Rightarrow> ('s \<times> int option) list" where
  "statuses w = map (\<lambda>row. (syncStatus row, remoteId row)) (rows w)"

section \<open>Properties\<close>

subsection \<open>Rows and keys\<close>

lemma map_id_updateSyncStatus [simp]: "map id' (updateSyncStatus tbl i s r e n) = map id' tbl"
  by (induction tbl) (auto simp: updateSyncStatus_def)

lemma map_id_updateRecord [simp]: "map id' (updateRecord tbl rcd) = map id' tbl"
  by (induction tbl) (auto simp: updateRecord_def)

lemma getRecordById_mem:
  "distinct (map id' tbl) \<Longrightarrow> e \<in> set tbl \<Longrightarrow> getRecordById tbl (id' e) = Some e"
  by (induction tbl) (auto simp: getRecordById_def)

lemma getRecordById_Some:
  "getRecordById tbl i = Some e \<Longrightarrow> e \<in> set tbl \<and> id' e = i"
  by (induction tbl) (auto simp: getRecordById_def split: if_splits)

lemma same_id_same_row:
  "distinct (map id' tbl) \<Longrightarrow> a \<in> set tbl \<Longrightarrow> b \<in> set tbl \<Longrightarrow> id' a = id' b \<Longrightarrow> a = b"
  by (auto simp: distinct_map dest: inj_onD)

lemma id_settled [simp]: "id' (settled e out now) = id' e"
  by (simp add: settled_def split: sum.splits)

subsection \<open>One record, one pass\<close>

lemma syncRecord_ids [simp]: "map id' (rows (fst (syncRecord remote i w))) = map id' (rows w)"
  by (simp add: syncRecord_def Let_def split: option.splits sum.splits)

lemma syncRecord_clock [simp]: "clock (fst (syncRecord remote i w)) = clock w"
  by (simp add: syncRecord_def Let_def split: option.splits sum.splits)

lemma syncRecord_settles:
  assumes d: "distinct (map id' (rows w))" and e: "e \<in> set (rows w)"
    and n: "\<not> (syncStatus e = SYNCED \<and> remoteId e \<noteq> None)"
  shows "rows (fst (syncRecord remote (id' e) w)) =
           map (\<lambda>row. if id' row = id' e
                       then settled e (createPost (remote (posts w)) (entityToCreatePostDTO e)) (clock w)
                       else row) (rows w)"
proof -
  have g: "getRecordById (rows w) (id' e) = Some e"
    using d e by (rule getRecordById_mem)
  have same: "\<And>row. row \<in> set (rows w) \<Longrightarrow> id' row = id' e \<Longrightarrow> row = e"
    using d e by (blast intro: same_id_same_row)
  show ?thesis
  proof (cases "createPost (remote (posts w)) (entityToCreatePostDTO e)")
    case (Inl err)
    have "\<And>row. row \<in> set (rows w) \<Longrightarrow> id' row = id' e \<Longrightarrow>
        row\<lparr>syncStatus := (if isPermanentError err then FAILED else PENDING), remoteId := None,
            lastSyncAttempt := Some (clock w), syncError := Some (message err)\<rparr>
        = settled e (Inl err) (clock w)"
    proof -
      fix row assume "row \<in> set (rows w)" "id' row = id' e"
      then have "row = e" by (rule same)
      then show "row\<lparr>syncStatus := (if isPermanentError err then FAILED else PENDING), remoteId := None,
            lastSyncAttempt := Some (clock w), syncError := Some (message err)\<rparr>
        = settled e (Inl err) (clock w)" by (simp add: settled_def)
    qed
    then show ?thesis using g n Inl
      by (auto simp: syncRecord_def Let_def updateSyncStatus_def)
  next
    case (Inr response)
    have "\<And>row. row \<in> set (rows w) \<Longrightarrow> id' row = id' e \<Longrightarrow>
        row\<lparr>title := title e, body := body e, syncStatus := SYNCED,
            remoteId := Some (resp_id response),
            lastSyncAttempt := Some (clock w), syncError := None\<rparr>
        = settled e (Inr response) (clock w)"
    proof -
      fix row assume "row \<in> set (rows w)" "id' row = id' e"
      then have "row = e" by (rule same)
      then show "row\<lparr>title := title e, body := body e, syncStatus := SYNCED,
            remoteId := Some (resp_id response),
            lastSyncAttempt := Some (clock w), syncError := None\<rparr>
        = settled e (Inr response) (clock w)" by (simp add: settled_def)
    qed
    then show ?thesis using g n Inr
      by (auto simp: syncRecord_def Let_def updateRecord_def mergePostResponse_def)
  qed
qed

lemma syncRecord_posts:
  assumes d: "distinct (map id' (rows w))" and e: "e \<in> set (rows w)"
    and n: "\<not> (syncStatus e = SYNCED \<and> remoteId e \<noteq> None)"
  shows "posts (fst (syncRecord remote (id' e) w)) = Suc (posts w)"
  using getRecordById_mem [OF d e] n
  by (auto simp: syncRecord_def Let_def posts_def split: sum.splits)

lemma syncRecord_frame:
  "r \<in> set (rows w) \<Longrightarrow> id' r \<noteq> i \<Longrightarrow> r \<in> set (rows (fst (syncRecord remote i w)))"
  by (auto simp: syncRecord_def Let_def updateSyncStatus_def updateRecord_def mergePostResponse_def
      image_iff dest!: getRecordById_Some split: option.splits sum.splits intro!: bexI [of _ r])

lemma syncLoop_Cons_fst:
  "fst (syncLoop remote (e # rest) w) =
     fst (syncLoop remote rest
            ((fst (syncRecord remote (id' e) w))\<lparr>clock := clock w + 100\<rparr>))"
  by (simp split: prod.splits) (metis fst_conv syncRecord_clock)

declare syncLoop.simps(2) [simp del]

lemma syncLoop_ids [simp]: "map id' (rows (fst (syncLoop remote es w))) = map id' (rows w)"
  by (induction es arbitrary: w) (simp_all add: syncLoop_Cons_fst)

lemma syncLoop_frame:
  "r \<in> set (rows w) \<Longrightarrow> id' r \<notin> id' ` set es \<Longrightarrow> r \<in> set (rows (fst (syncLoop remote es w)))"
  by (induction es arbitrary: w) (simp_all add: syncLoop_Cons_fst syncRecord_frame)

lemma syncLoop_settles_mem:
  assumes "distinct (map id' (rows w))" and "distinct (map id' es)"
    and "set es \<subseteq> set (rows w)"
    and "\<forall>e\<in>set es. \<not> (syncStatus e = SYNCED \<and> remoteId e \<noteq> None)"
    and "k < length es"
  shows "settled (es ! k) (createPost (remote (posts w + k)) (entityToCreatePostDTO (es ! k)))
           (clock w + 100 * int k) \<in> set (rows (fst (syncLoop remote es w)))"
  using assms
proof (induction es arbitrary: w k)
  case Nil
  then show ?case by simp
next
  case (Cons e rest)
  let ?w1 = "(fst (syncRecord remote (id' e) w))\<lparr>clock := clock w + 100\<rparr>"
  have e: "e \<in> set (rows w)" and ne: "\<not> (syncStatus e = SYNCED \<and> remoteId e \<noteq> None)"
    using Cons.prems by auto
  have rows1: "rows ?w1 = map (\<lambda>row. if id' row = id' e
                       then settled e (createPost (remote (posts w)) (entityToCreatePostDTO e)) (clock w)
                       else row) (rows w)"
    using syncRecord_settles [OF Cons.prems(1) e ne] by simp
  show ?case
  proof (cases k)
    case 0
    have "settled e (createPost (remote (posts w)) (entityToCreatePostDTO e)) (clock w) \<in> set (rows ?w1)"
      unfolding rows1 using e by (auto simp: image_iff intro!: bexI [of _ e])
    moreover have "id' e \<notin> id' ` set rest" using Cons.prems(2) by auto
    ultimately show ?thesis using 0
      by (simp add: syncLoop_Cons_fst syncLoop_frame)
  next
    case (Suc j)
    have d1: "distinct (map id' (rows ?w1))" using Cons.prems(1) by simp
    have sub: "set rest \<subseteq> set (rows ?w1)"
    proof
      fix r assume r: "r \<in> set rest"
      then have "r \<in> set (rows w)" and "id' r \<noteq> id' e"
        using Cons.prems(2,3) by (auto simp: image_iff)
      then show "r \<in> set (rows ?w1)" by (simp add: syncRecord_frame)
    qed
    have p1: "posts ?w1 = Suc (posts w)"
      using syncRecord_posts [OF Cons.prems(1) e ne, of remote] by (simp add: posts_def)
    have "settled (rest ! j) (createPost (remote (posts ?w1 + j)) (entityToCreatePostDTO (rest ! j)))
           (clock ?w1 + 100 * int j) \<in> set (rows (fst (syncLoop remote rest ?w1)))"
      using Cons.prems Suc by (intro Cons.IH d1 sub) auto
    then show ?thesis using Suc p1
      by (simp add: syncLoop_Cons_fst algebra_simps)
  qed
qed

lemma distinct_map_insort_key:
  "distinct (map g (insort_key f x xs)) \<longleftrightarrow> g x \<notin> g ` set xs \<and> distinct (map g xs)"
  by (induction xs) (auto simp: set_insort_key)

lemma distinct_map_sort_key:
  "distinct (map g (sort_key f xs)) \<longleftrightarrow> distinct (map g xs)"
  by (induction xs) (auto simp: distinct_map_insort_key)

lemma distinct_getRecordsByStatus:
  "distinct (map id' tbl) \<Longrightarrow> distinct (map id' (getRecordsByStatus tbl s))"
  by (simp add: getRecordsByStatus_def distinct_map_sort_key distinct_map_filter)

lemma set_getRecordsByStatus [simp]:
  "set (getRecordsByStatus tbl s) = {row \<in> set tbl. syncStatus row = s}"
  by (simp add: getRecordsByStatus_def)

lemma syncPendingRecords_fst:
  "fst (syncPendingRecords remote w) = fst (syncLoop remote (getRecordsByStatus (rows w) PENDING) w)"
  by (simp add: syncPendingRecords_def Let_def)

lemma syncPendingRecords_settles:
  assumes d: "distinct (map id' (rows w))"
    and k: "k < length (getRecordsByStatus (rows w) PENDING)"
  shows "getRecordById (rows (fst (syncPendingRecords remote w)))
           (id' (getRecordsByStatus (rows w) PENDING ! k)) =
         Some (settled (getRecordsByStatus (rows w) PENDING ! k)
                 (createPost (remote (posts w + k))
                    (entityToCreatePostDTO (getRecordsByStatus (rows w) PENDING ! k)))
                 (clock w + 100 * int k))"
proof -
  let ?ps = "getRecordsByStatus (rows w) PENDING"
  have "settled (?ps ! k) (createPost (remote (posts w + k)) (entityToCreatePostDTO (?ps ! k)))
           (clock w + 100 * int k) \<in> set (rows (fst (syncLoop remote ?ps w)))"
    using d k by (intro syncLoop_settles_mem distinct_getRecordsByStatus) auto
  moreover have "distinct (map id' (rows (fst (syncLoop remote ?ps w))))"
    using d by simp
  ultimately show ?thesis
    using getRecordById_mem [of "rows (fst (syncLoop remote ?ps w))"]
    by (fastforce simp: syncPendingRecords_fst)
qed

text \<open>
  Claim C1. For every record attempted in a sync pass (the \<open>k\<close>-th pending record of
  the pass, on a table with distinct primary keys), the row stored after the pass is
  determined by what the remote service answered to its POST: on acceptance the status
  is SYNCED, \<open>remoteId\<close> is the identifier the remote assigned and \<open>syncError\<close> is
  cleared; on a response with a 4xx status the status is FAILED and the error message is
  stored; on a 5xx response, a timeout or a network error the status is PENDING again,
  the message is stored and \<open>remoteId\<close> is absent. Nothing else of the row changes.
\<close>

theorem syncPendingRecords_outcome:
  assumes "distinct (map id' (rows w))"
    and "k < length (getRecordsByStatus (rows w) PENDING)"
    and "e = getRecordsByStatus (rows w) PENDING ! k"
    and "w' = fst (syncPendingRecords remote w)"
    and "now = clock w + 100 * int k"
  shows
    "(\<forall>r. remote (posts w + k) (entityToCreatePostDTO e) = Resolved r \<longrightarrow>
        getRecordById (rows w') (id' e) =
          Some (e\<lparr>syncStatus := SYNCED, remoteId := Some (resp_id r),
                  lastSyncAttempt := Some now, syncError := None\<rparr>))
   \<and> (\<forall>st c m. remote (posts w + k) (entityToCreatePostDTO e) = Rejected (AxiosError (Some st) c m)
          \<and> 400 \<le> st \<and> st < 500 \<longrightarrow>
        getRecordById (rows w') (id' e) =
          Some (e\<lparr>syncStatus := FAILED, remoteId := None, lastSyncAttempt := Some now,
                  syncError := Some (''Client error: '' @ show_int st)\<rparr>))
   \<and> (\<forall>st c m. remote (posts w + k) (entityToCreatePostDTO e) = Rejected (AxiosError (Some st) c m)
          \<and> 500 \<le> st \<longrightarrow>
        getRecordById (rows w') (id' e) =
          Some (e\<lparr>syncStatus := PENDING, remoteId := None, lastSyncAttempt := Some now,
                  syncError := Some (''Server error: '' @ show_int st)\<rparr>))
   \<and> (\<forall>c m. remote (posts w + k) (entityToCreatePostDTO e) = Rejected (AxiosError None c m) \<longrightarrow>
        getRecordById (rows w') (id' e) =
          Some (e\<lparr>syncStatus := PENDING, remoteId := None, lastSyncAttempt := Some now,
                  syncError := Some (if c = Some ''ECONNABORTED'' then ''Request timeout''
                     else ''Network error: '' @ (if m = [] then ''No connection'' else m))\<rparr>))"
  unfolding assms(3,4,5) syncPendingRecords_settles [OF assms(1,2)]
  by (simp add: settled_def createPost_def newApiError_def isPermanentError_def)

theorem syncPendingRecords_outcome_witness:
  "getRecordById (rows (fst (syncPendingRecords exRemote exWorld))) ''r2'' =
     Some ((exRow ''r2'' 2 PENDING)\<lparr>syncStatus := SYNCED, remoteId := Some 101,
             lastSyncAttempt := Some 1000, syncError := None\<rparr>)
   \<and> getRecordById (rows (fst (syncPendingRecords exRemote exWorld))) ''r1'' =
     Some ((exRow ''r1'' 1 PENDING)\<lparr>syncStatus := PENDING, remoteId := None,
             lastSyncAttempt := Some 1100, syncError := Some ''Request timeout''\<rparr>)"
proof -
  have d: "distinct (map id' (rows exWorld))"
    by (simp add: exWorld_def exRow_def)
  have ps: "getRecordsByStatus (rows exWorld) PENDING = [exRow ''r2'' 2 PENDING, exRow ''r1'' 1 PENDING]"
    by (simp add: exWorld_def exRow_def getRecordsByStatus_def)
  have p: "posts exWorld = 0" by (simp add: exWorld_def posts_def)
  have c: "clock exWorld = 1000" by (simp add: exWorld_def)
  have k0: "0 < length (getRecordsByStatus (rows exWorld) PENDING)" by (simp add: ps)
  have k1: "1 < length (getRecordsByStatus (rows exWorld) PENDING)" by (simp add: ps)
  show ?thesis
    using syncPendingRecords_outcome [OF d k0 refl refl refl, of exRemote]
      syncPendingRecords_outcome [OF d k1 refl refl refl, of exRemote]
    by (simp add: ps p c exRemote_def exRow_def entityToCreatePostDTO_def)
qed

subsection \<open>The requeue step of retryFailedSyncs\<close>

lemma markAsPending_clock [simp]: "clock (markAsPending es w) = clock w"
  by (induction es arbitrary: w) simp_all

lemma markAsPending_posts [simp]: "posts (markAsPending es w) = posts w"
  by (induction es arbitrary: w) (simp_all add: posts_def)

lemma markAsPending_rows:
  "rows (markAsPending es w) =
     map (\<lambda>row. if id' row \<in> id' ` set es
                 then row\<lparr>syncStatus := PENDING, remoteId := None,
                          lastSyncAttempt := Some (clock w), syncError := None\<rparr>
                 else row) (rows w)"
  by (induction es arbitrary: w) (auto simp: updateSyncStatus_def)

lemma markAsPending_ids [simp]: "map id' (rows (markAsPending es w)) = map id' (rows w)"
  by (simp add: markAsPending_rows comp_def if_distrib cong: if_cong)

text \<open>
  Claim C10. The requeue step of \<^verbatim>\<open>retryFailedSyncs\<close> runs before the pass and before
  any POST, and for every FAILED record it overwrites more than the status: the row
  gets status PENDING, \<open>syncError\<close> null, \<open>remoteId\<close> null and \<open>lastSyncAttempt\<close>
  the current time. The stored failure message is erased by the requeue itself,
  whatever the pass that follows does.
\<close>

theorem retryFailedSyncs_requeue:
  assumes "distinct (map id' (rows w))" and "e \<in> set (rows w)" and "syncStatus e = FAILED"
    and "w1 = markAsPending (getRecordsByStatus (rows w) FAILED) w"
  shows "fst (retryFailedSyncs remote w) = fst (syncPendingRecords remote w1)
       \<and> posts w1 = posts w
       \<and> getRecordById (rows w1) (id' e) =
           Some (e\<lparr>syncStatus := PENDING, remoteId := None,
                   lastSyncAttempt := Some (clock w), syncError := None\<rparr>)"
proof -
  have mem: "e \<in> set (getRecordsByStatus (rows w) FAILED)"
    using assms(2,3) by simp
  have ne: "getRecordsByStatus (rows w) FAILED \<noteq> []"
    using length_pos_if_in_set [OF mem] by auto
  have "e\<lparr>syncStatus := PENDING, remoteId := None,
          lastSyncAttempt := Some (clock w), syncError := None\<rparr> \<in> set (rows w1)"
    unfolding assms(4) markAsPending_rows using assms(2) mem
    by (auto simp: image_iff intro!: bexI [of _ e])
  moreover have "distinct (map id' (rows w1))"
    unfolding assms(4) using assms(1) by simp
  ultimately have "getRecordById (rows w1) (id' (e\<lparr>syncStatus := PENDING, remoteId := None,
          lastSyncAttempt := Some (clock w), syncError := None\<rparr>)) =
        Some (e\<lparr>syncStatus := PENDING, remoteId := None,
          lastSyncAttempt := Some (clock w), syncError := None\<rparr>)"
    by (intro getRecordById_mem)
  then show ?thesis using ne
    by (simp add: retryFailedSyncs_def Let_def assms(4))
qed

theorem retryFailedSyncs_requeue_witness:
  "getRecordById (rows (markAsPending (getRecordsByStatus (rows exFailed) FAILED) exFailed)) ''r1'' =
     Some ((exRow ''r1'' 1 PENDING)\<lparr>lastSyncAttempt := Some 1000\<rparr>)
   \<and> posts (markAsPending (getRecordsByStatus (rows exFailed) FAILED) exFailed) = 0"
proof -
  have d: "distinct (map id' (rows exFailed))" by (simp add: exFailed_def exRow_def)
  have m: "(exRow ''r1'' 1 FAILED)\<lparr>lastSyncAttempt := Some 500,
             syncError := Some ''Client error: 422''\<rparr> \<in> set (rows exFailed)"
    by (simp add: exFailed_def)
  show ?thesis
    using retryFailedSyncs_requeue [OF d m _ refl, of exRemote]
    by (simp add: exRow_def exFailed_def posts_def)
qed

subsection \<open>Rows a pass does not select\<close>

lemma syncRecord_journal:
  "\<exists>new. journal (fst (syncRecord remote i w)) = journal w @ new \<and>
     (\<forall>j. ApiPost j \<in> set new \<longrightarrow> j = i)"
  by (auto simp: syncRecord_def Let_def split: option.splits sum.splits)

lemma syncLoop_journal:
  "\<exists>new. journal (fst (syncLoop remote es w)) = journal w @ new \<and>
     (\<forall>j. ApiPost j \<in> set new \<longrightarrow> j \<in> id' ` set es)"
proof (induction es arbitrary: w)
  case Nil
  then show ?case by simp
next
  case (Cons e rest)
  let ?w1 = "(fst (syncRecord remote (id' e) w))\<lparr>clock := clock w + 100\<rparr>"
  obtain n1 where n1: "journal ?w1 = journal w @ n1" "\<forall>j. ApiPost j \<in> set n1 \<longrightarrow> j = id' e"
    using syncRecord_journal [of remote "id' e" w] by auto
  obtain n2 where n2: "journal (fst (syncLoop remote rest ?w1)) = journal ?w1 @ n2"
      "\<forall>j. ApiPost j \<in> set n2 \<longrightarrow> j \<in> id' ` set rest"
    using Cons.IH [of ?w1] by auto
  have "journal (fst (syncLoop remote (e # rest) w)) = journal w @ (n1 @ n2)"
    using n1 n2 by (simp add: syncLoop_Cons_fst)
  moreover have "\<forall>j. ApiPost j \<in> set (n1 @ n2) \<longrightarrow> j \<in> id' ` set (e # rest)"
    using n1 n2 by auto
  ultimately show ?case by blast
qed

lemma not_in_status_ids:
  assumes "distinct (map id' tbl)" and "r \<in> set tbl" and "syncStatus r \<noteq> s"
  shows "id' r \<notin> id' ` set (getRecordsByStatus tbl s)"
proof
  assume "id' r \<in> id' ` set (getRecordsByStatus tbl s)"
  then obtain p where "p \<in> set tbl" "syncStatus p = s" "id' p = id' r" by auto
  then have "p = r" using assms(1,2) by (blast intro: same_id_same_row)
  then show False using \<open>syncStatus p = s\<close> assms(3) by simp
qed

lemma syncPendingRecords_untouched:
  assumes "distinct (map id' (rows w))" and "r \<in> set (rows w)" and "syncStatus r \<noteq> PENDING"
  shows "r \<in> set (rows (fst (syncPendingRecords remote w)))"
    and "\<exists>new. journal (fst (syncPendingRecords remote w)) = journal w @ new \<and> ApiPost (id' r) \<notin> set new"
proof -
  have nin: "id' r \<notin> id' ` set (getRecordsByStatus (rows w) PENDING)"
    using assms by (rule not_in_status_ids)
  show "r \<in> set (rows (fst (syncPendingRecords remote w)))"
    unfolding syncPendingRecords_fst using assms(2) nin by (rule syncLoop_frame)
  show "\<exists>new. journal (fst (syncPendingRecords remote w)) = journal w @ new \<and> ApiPost (id' r) \<notin> set new"
    unfolding syncPendingRecords_fst
    using syncLoop_journal [of remote "getRecordsByStatus (rows w) PENDING" w] nin by blast
qed

lemma syncPendingRecords_ids [simp]:
  "map id' (rows (fst (syncPendingRecords remote w))) = map id' (rows w)"
  by (simp add: syncPendingRecords_fst)

lemma markAsPending_frame:
  "r \<in> set (rows w) \<Longrightarrow> id' r \<notin> id' ` set es \<Longrightarrow> r \<in> set (rows (markAsPending es w))"
  by (auto simp: markAsPending_rows image_iff intro!: bexI [of _ r])

lemma markAsPending_journal:
  "\<exists>new. journal (markAsPending es w) = journal w @ new \<and> (\<forall>j. ApiPost j \<notin> set new)"
proof (induction es arbitrary: w)
  case Nil
  then show ?case by simp
next
  case (Cons e rest)
  let ?w1 = "w\<lparr>rows := updateSyncStatus (rows w) (id' e) PENDING None None (clock w),
          journal := journal w @ [StatusWrite (id' e) PENDING]\<rparr>"
  obtain n2 where "journal (markAsPending rest ?w1) = journal ?w1 @ n2" "\<forall>j. ApiPost j \<notin> set n2"
    using Cons.IH [of ?w1] by auto
  then have "journal (markAsPending (e # rest) w) = journal w @ (StatusWrite (id' e) PENDING # n2)
      \<and> (\<forall>j. ApiPost j \<notin> set (StatusWrite (id' e) PENDING # n2))"
    by simp
  then show ?case by blast
qed

lemma retryFailedSyncs_ids [simp]:
  "map id' (rows (fst (retryFailedSyncs remote w))) = map id' (rows w)"
  by (simp add: retryFailedSyncs_def Let_def)

lemma retryFailedSyncs_untouched:
  assumes "distinct (map id' (rows w))" and "r \<in> set (rows w)" and "syncStatus r = SYNCED"
  shows "r \<in> set (rows (fst (retryFailedSyncs remote w)))"
    and "\<exists>new. journal (fst (retryFailedSyncs remote w)) = journal w @ new \<and> ApiPost (id' r) \<notin> set new"
proof -
  let ?w1 = "markAsPending (getRecordsByStatus (rows w) FAILED) w"
  have nin: "id' r \<notin> id' ` set (getRecordsByStatus (rows w) FAILED)"
    using assms by (intro not_in_status_ids) auto
  have r1: "r \<in> set (rows ?w1)" using assms(2) nin by (rule markAsPending_frame)
  have d1: "distinct (map id' (rows ?w1))" using assms(1) by simp
  have np: "syncStatus r \<noteq> PENDING" using assms(3) by simp
  obtain n1 where n1: "journal ?w1 = journal w @ n1" "\<forall>j. ApiPost j \<notin> set n1"
    using markAsPending_journal by blast
  obtain n2 where n2: "journal (fst (syncPendingRecords remote ?w1)) = journal ?w1 @ n2"
      "ApiPost (id' r) \<notin> set n2"
    using syncPendingRecords_untouched(2) [OF d1 r1 np] by blast
  show "r \<in> set (rows (fst (retryFailedSyncs remote w)))"
    using assms(2) syncPendingRecords_untouched(1) [OF d1 r1 np]
    by (simp add: retryFailedSyncs_def Let_def)
  have "journal (fst (syncPendingRecords remote ?w1)) = journal w @ (n1 @ n2) \<and> ApiPost (id' r) \<notin> set (n1 @ n2)"
    using n1 n2 by simp
  then show "\<exists>new. journal (fst (retryFailedSyncs remote w)) = journal w @ new \<and> ApiPost (id' r) \<notin> set new"
    by (cases "getRecordsByStatus (rows w) FAILED = []") (auto simp: retryFailedSyncs_def Let_def)
qed

lemma createRecord_rows:
  "rows (fst (createRecord uuid ttl bdy w)) = rows w \<or>
   (uuid \<notin> id' ` set (rows w) \<and> validateRecordInput ttl bdy = None \<and>
    rows (fst (createRecord uuid ttl bdy w)) =
      rows w @ [\<lparr>id' = uuid, title = trim ttl, body = trim bdy, createdAt = clock w,
                  syncStatus = PENDING, remoteId = None, lastSyncAttempt = None,
                  syncError = None\<rparr>])"
  by (auto simp: createRecord_def repository_createRecord_def insertRecord_def Let_def
      split: option.splits)

lemma createRecord_journal [simp]: "journal (fst (createRecord uuid ttl bdy w)) = journal w"
  by (auto simp: createRecord_def repository_createRecord_def insertRecord_def Let_def
      split: option.splits)

lemma createRecord_distinct:
  "distinct (map id' (rows w)) \<Longrightarrow> distinct (map id' (rows (fst (createRecord uuid ttl bdy w))))"
  using createRecord_rows [of uuid ttl bdy w] by auto

lemma step_distinct:
  "distinct (map id' (rows w)) \<Longrightarrow> distinct (map id' (rows (step remote x w)))"
  by (cases x) (simp_all add: createRecord_distinct)

lemma run_distinct:
  "distinct (map id' (rows w)) \<Longrightarrow> distinct (map id' (rows (run remote xs w)))"
  by (induction xs arbitrary: w) (simp_all add: step_distinct)

lemma step_untouched:
  assumes "distinct (map id' (rows w))" and "r \<in> set (rows w)" and "isEngineOp x"
    and "syncStatus r = SYNCED \<or> (syncStatus r = FAILED \<and> x \<noteq> RetryFailed)"
  shows "r \<in> set (rows (step remote x w)) \<and>
    (\<exists>new. journal (step remote x w) = journal w @ new \<and> ApiPost (id' r) \<notin> set new)"
proof (cases x)
  case (CreateRecord uuid ttl bdy)
  then show ?thesis using assms(2) createRecord_rows [of uuid ttl bdy w] by auto
next
  case SyncNow
  have "syncStatus r \<noteq> PENDING" using assms(4) by auto
  then show ?thesis
    using SyncNow syncPendingRecords_untouched [OF assms(1,2), of remote] by simp
next
  case RetryFailed
  then have "syncStatus r = SYNCED" using assms(4) by simp
  then show ?thesis
    using RetryFailed retryFailedSyncs_untouched [OF assms(1,2), of remote] by simp
next
  case (UpdateSyncStatus i status rid err)
  then show ?thesis using assms(3) by simp
next
  case (Tick ms)
  then show ?thesis using assms(2) by simp
qed

lemma run_untouched:
  assumes "distinct (map id' (rows w))" and "r \<in> set (rows w)" and "list_all isEngineOp xs"
    and "syncStatus r = SYNCED \<or> (syncStatus r = FAILED \<and> RetryFailed \<notin> set xs)"
  shows "r \<in> set (rows (run remote xs w)) \<and>
    (\<exists>new. journal (run remote xs w) = journal w @ new \<and> ApiPost (id' r) \<notin> set new)"
  using assms
proof (induction xs arbitrary: w)
  case Nil
  then show ?case by simp
next
  case (Cons x xs)
  let ?w1 = "step remote x w"
  have s: "r \<in> set (rows ?w1)"
    and "\<exists>new. journal ?w1 = journal w @ new \<and> ApiPost (id' r) \<notin> set new"
    using step_untouched [OF Cons.prems(1,2), of x remote] Cons.prems(3,4) by auto
  then obtain n1 where n1: "journal ?w1 = journal w @ n1" "ApiPost (id' r) \<notin> set n1" by blast
  have "r \<in> set (rows (run remote xs ?w1)) \<and>
    (\<exists>new. journal (run remote xs ?w1) = journal ?w1 @ new \<and> ApiPost (id' r) \<notin> set new)"
    using Cons.prems by (intro Cons.IH step_distinct s) auto
  then obtain n2 where n2: "r \<in> set (rows (run remote xs ?w1))"
    "journal (run remote xs ?w1) = journal ?w1 @ n2" "ApiPost (id' r) \<notin> set n2" by blast
  have "journal (run remote (x # xs) w) = journal w @ (n1 @ n2) \<and> ApiPost (id' r) \<notin> set (n1 @ n2)"
    using n1 n2 by simp
  then show ?case using n2(1) by (metis run.simps(2))
qed

text \<open>
  Operations that run one after the other, each to its end. On a table with distinct
  primary keys a SYNCED row stays exactly as it is through every sequence of the
  engine's operations, and a FAILED row stays exactly as it is, with no POST made for
  it, through every such sequence without a retry of the failed records.
\<close>

lemma run_terminal_states_sticky:
  assumes "distinct (map id' (rows w))" and "e \<in> set (rows w)" and "list_all isEngineOp ops"
  shows "(syncStatus e = SYNCED \<longrightarrow> e \<in> set (rows (run remote ops w)))
       \<and> (syncStatus e = FAILED \<and> RetryFailed \<notin> set ops \<longrightarrow>
            e \<in> set (rows (run remote ops w)) \<and>
            (\<exists>new. journal (run remote ops w) = journal w @ new \<and> ApiPost (id' e) \<notin> set new))"
  using run_untouched [OF assms(1,2,3), of remote] by blast

subsection \<open>Write-once columns\<close>

lemma content_updateSyncStatus [simp]:
  "map content (updateSyncStatus tbl i s r e n) = map content tbl"
  by (induction tbl) (auto simp: updateSyncStatus_def content_def)

lemma content_settled [simp]: "content (settled e out now) = content e"
  by (simp add: settled_def content_def split: sum.splits)

lemma syncRecord_content:
  assumes "distinct (map id' (rows w))"
  shows "map content (rows (fst (syncRecord remote i w))) = map content (rows w)"
proof (cases "getRecordById (rows w) i")
  case None
  then show ?thesis by (simp add: syncRecord_def)
next
  case (Some e)
  then have e: "e \<in> set (rows w)" and i: "id' e = i" using getRecordById_Some by auto
  show ?thesis
  proof (cases "syncStatus e = SYNCED \<and> remoteId e \<noteq> None")
    case True
    then show ?thesis using Some by (simp add: syncRecord_def)
  next
    case False
    have "\<And>row. row \<in> set (rows w) \<Longrightarrow> id' row = id' e \<Longrightarrow> row = e"
      using assms e by (blast intro: same_id_same_row)
    then show ?thesis
      unfolding i [symmetric] syncRecord_settles [OF assms e False]
      by (auto simp: comp_def)
  qed
qed

lemma syncLoop_content:
  "distinct (map id' (rows w)) \<Longrightarrow>
   map content (rows (fst (syncLoop remote es w))) = map content (rows w)"
  by (induction es arbitrary: w) (simp_all add: syncLoop_Cons_fst syncRecord_content)

lemma markAsPending_content [simp]:
  "map content (rows (markAsPending es w)) = map content (rows w)"
  by (induction es arbitrary: w) simp_all

lemma step_content:
  assumes "distinct (map id' (rows w))"
  shows "\<exists>ys. map content (rows (step remote x w)) = map content (rows w) @ ys"
proof (cases x)
  case (CreateRecord uuid ttl bdy)
  then show ?thesis using createRecord_rows [of uuid ttl bdy w] by auto
next
  case SyncNow
  then show ?thesis using assms by (simp add: syncPendingRecords_fst syncLoop_content)
next
  case RetryFailed
  then show ?thesis using assms
    by (simp add: retryFailedSyncs_def Let_def syncPendingRecords_fst syncLoop_content)
qed simp_all

lemma run_content:
  "distinct (map id' (rows w)) \<Longrightarrow>
   \<exists>ys. map content (rows (run remote xs w)) = map content (rows w) @ ys"
proof (induction xs arbitrary: w)
  case Nil
  then show ?case by simp
next
  case (Cons x xs)
  obtain ys where ys: "map content (rows (step remote x w)) = map content (rows w) @ ys"
    using step_content [OF Cons.prems] by blast
  obtain zs where "map content (rows (run remote xs (step remote x w))) =
      map content (rows (step remote x w)) @ zs"
    using Cons.IH [OF step_distinct [OF Cons.prems]] by blast
  then have "map content (rows (run remote (x # xs) w)) = map content (rows w) @ (ys @ zs)"
    using ys by simp
  then show ?case by blast
qed

text \<open>
  Claim C8. No operation modifies a stored record's \<open>id\<close>, \<open>title\<close>, \<open>body\<close> or
  \<open>createdAt\<close>: through every sequence of creations, sync passes, retries, direct
  status updates and waits, a record of a table with distinct primary keys is still
  found under its key, with the title, the body and the creation time it had.
\<close>

theorem content_write_once:
  assumes "distinct (map id' (rows w))" and "e \<in> set (rows w)"
  shows "\<exists>e'. getRecordById (rows (run remote ops w)) (id' e) = Some e'
           \<and> title e' = title e \<and> body e' = body e \<and> createdAt e' = createdAt e"
proof -
  obtain ys where "map content (rows (run remote ops w)) = map content (rows w) @ ys"
    using run_content [OF assms(1)] by blast
  moreover have "content e \<in> set (map content (rows w))" using assms(2) by simp
  ultimately have "content e \<in> set (map content (rows (run remote ops w)))" by simp
  then obtain e' where e': "e' \<in> set (rows (run remote ops w))" "content e' = content e"
    by auto
  have "getRecordById (rows (run remote ops w)) (id' e') = Some e'"
    using run_distinct [OF assms(1)] e'(1) by (rule getRecordById_mem)
  then show ?thesis using e'(2) by (auto simp: content_def)
qed

theorem content_write_once_witness:
  "\<exists>e'. getRecordById
          (rows (run exRemote
             [SyncNow, UpdateSyncStatus ''r1'' FAILED None (Some ''stopped''), RetryFailed,
              CreateRecord ''r3'' ''C'' ''D'', SyncNow] exWorld)) ''r1'' = Some e'
     \<and> title e' = ''A'' \<and> body e' = ''B'' \<and> createdAt e' = 1"
proof -
  have d: "distinct (map id' (rows exWorld))" by (simp add: exWorld_def exRow_def)
  have m: "exRow ''r1'' 1 PENDING \<in> set (rows exWorld)" by (simp add: exWorld_def)
  show ?thesis
    using content_write_once [OF d m, of exRemote
        "[SyncNow, UpdateSyncStatus ''r1'' FAILED None (Some ''stopped''), RetryFailed,
          CreateRecord ''r3'' ''C'' ''D'', SyncNow]"]
    by (simp add: exRow_def del: run.simps)
qed

subsection \<open>Records that have a remote identifier\<close>

lemma remoteIdInv_iff:
  "remoteIdInv tbl \<longleftrightarrow> (\<forall>row\<in>set tbl. remoteId row \<noteq> None \<longrightarrow> syncStatus row = SYNCED)"
  by (auto simp: remoteIdInv_def list_all_iff)

lemma syncRecord_remoteIdInv:
  "remoteIdInv (rows w) \<Longrightarrow> remoteIdInv (rows (fst (syncRecord remote i w)))"
  by (auto simp: remoteIdInv_iff syncRecord_def Let_def updateSyncStatus_def updateRecord_def
      mergePostResponse_def split: option.splits sum.splits)

lemma syncLoop_remoteIdInv:
  "remoteIdInv (rows w) \<Longrightarrow> remoteIdInv (rows (fst (syncLoop remote es w)))"
  by (induction es arbitrary: w) (simp_all add: syncLoop_Cons_fst syncRecord_remoteIdInv)

lemma markAsPending_remoteIdInv:
  "remoteIdInv (rows w) \<Longrightarrow> remoteIdInv (rows (markAsPending es w))"
  by (auto simp: remoteIdInv_iff markAsPending_rows)

lemma step_remoteIdInv:
  "isEngineOp x \<Longrightarrow> remoteIdInv (rows w) \<Longrightarrow> remoteIdInv (rows (step remote x w))"
proof (cases x)
  case (CreateRecord uuid ttl bdy)
  assume "remoteIdInv (rows w)"
  then show ?thesis using CreateRecord createRecord_rows [of uuid ttl bdy w]
    by (auto simp: remoteIdInv_iff)
qed (simp_all add: syncPendingRecords_fst syncLoop_remoteIdInv retryFailedSyncs_def Let_def
      markAsPending_remoteIdInv)

lemma run_remoteIdInv:
  "list_all isEngineOp xs \<Longrightarrow> remoteIdInv (rows w) \<Longrightarrow> remoteIdInv (rows (run remote xs w))"
  by (induction xs arbitrary: w) (simp_all add: step_remoteIdInv)

text \<open>
  Operations that run one after the other, each to its end. In every world they reach
  from a fresh installation, a record whose \<open>remoteId\<close> is set is SYNCED;
  \<^verbatim>\<open>syncRecord\<close> on it returns success with that \<open>remoteId\<close> and leaves the world
  as it is, without a POST and without a write; and through every further such
  sequence the row stays as it is and no POST is made for it.
\<close>

lemma run_remoteId_never_sent_again:
  assumes "list_all isEngineOp ops0" and "w = run remote0 ops0 (emptyWorld t0)"
    and "e \<in> set (rows w)" and "remoteId e \<noteq> None"
    and "list_all isEngineOp ops"
  shows "syncStatus e = SYNCED
       \<and> syncRecord remote (id' e) w = (w, SyncResult (id' e) True None (remoteId e))
       \<and> e \<in> set (rows (run remote ops w))
       \<and> (\<exists>new. journal (run remote ops w) = journal w @ new \<and> ApiPost (id' e) \<notin> set new)"
proof -
  have d: "distinct (map id' (rows w))"
    unfolding assms(2) by (rule run_distinct) (simp add: emptyWorld_def)
  have "remoteIdInv (rows w)"
    unfolding assms(2) using assms(1) by (rule run_remoteIdInv) (simp add: emptyWorld_def remoteIdInv_def)
  then have s: "syncStatus e = SYNCED" using assms(3,4) by (auto simp: remoteIdInv_iff)
  have "getRecordById (rows w) (id' e) = Some e" using d assms(3) by (rule getRecordById_mem)
  then have "syncRecord remote (id' e) w = (w, SyncResult (id' e) True None (remoteId e))"
    using s assms(4) by (simp add: syncRecord_def)
  then show ?thesis
    using s run_untouched [OF d assms(3,5), of remote] by blast
qed

subsection \<open>Creation and validation\<close>

lemma trim_padded: "trim (replicate n (CHR ''a'') @ '' '') = replicate n (CHR ''a'')"
  by (simp add: trim_def isWhiteSpace_def dropWhile_append)

lemma validateRecordInput_None:
  "validateRecordInput ttl bdy = None \<longleftrightarrow>
     0 < length (trim ttl) \<and> length (trim ttl) \<le> 200 \<and>
     0 < length (trim bdy) \<and> length (trim bdy) \<le> 5000"
  by (auto simp: validateRecordInput_def trim_def)

lemma validateRecordInput_Some:
  "validateRecordInput ttl bdy = Some e \<Longrightarrow> \<exists>msg. e = ValidationError msg"
  by (auto simp: validateRecordInput_def split: if_splits)

lemma syncRecord_posts_it:
  assumes "distinct (map id' (rows w))" and "e \<in> set (rows w)"
    and "\<not> (syncStatus e = SYNCED \<and> remoteId e \<noteq> None)"
  shows "ApiPost (id' e) \<in> set (journal (fst (syncRecord remote (id' e) w)))"
  using getRecordById_mem [OF assms(1,2)] assms(3)
  by (auto simp: syncRecord_def Let_def split: sum.splits)

lemma syncLoop_journal_mono:
  "x \<in> set (journal w) \<Longrightarrow> x \<in> set (journal (fst (syncLoop remote es w)))"
  using syncLoop_journal [of remote es w] by auto

lemma syncLoop_posts_each:
  assumes "distinct (map id' (rows w))" and "distinct (map id' es)"
    and "set es \<subseteq> set (rows w)"
    and "\<forall>e\<in>set es. \<not> (syncStatus e = SYNCED \<and> remoteId e \<noteq> None)"
    and "e \<in> set es"
  shows "ApiPost (id' e) \<in> set (journal (fst (syncLoop remote es w)))"
  using assms
proof (induction es arbitrary: w)
  case Nil
  then show ?case by simp
next
  case (Cons a rest)
  let ?w1 = "(fst (syncRecord remote (id' a) w))\<lparr>clock := clock w + 100\<rparr>"
  have a: "a \<in> set (rows w)" and na: "\<not> (syncStatus a = SYNCED \<and> remoteId a \<noteq> None)"
    using Cons.prems by auto
  show ?case
  proof (cases "e = a")
    case True
    have "ApiPost (id' a) \<in> set (journal ?w1)"
      using syncRecord_posts_it [OF Cons.prems(1) a na, of remote] by simp
    then show ?thesis using True
      by (simp add: syncLoop_Cons_fst syncLoop_journal_mono)
  next
    case False
    have d1: "distinct (map id' (rows ?w1))" using Cons.prems(1) by simp
    have sub: "set rest \<subseteq> set (rows ?w1)"
    proof
      fix r assume r: "r \<in> set rest"
      then have "r \<in> set (rows w)" and "id' r \<noteq> id' a"
        using Cons.prems(2,3) by (auto simp: image_iff)
      then show "r \<in> set (rows ?w1)" by (simp add: syncRecord_frame)
    qed
    have "ApiPost (id' e) \<in> set (journal (fst (syncLoop remote rest ?w1)))"
      using Cons.prems False by (intro Cons.IH d1 sub) auto
    then show ?thesis by (simp add: syncLoop_Cons_fst)
  qed
qed

lemma syncPendingRecords_posts_each:
  assumes "distinct (map id' (rows w))" and "row \<in> set (rows w)" and "syncStatus row = PENDING"
  shows "ApiPost (id' row) \<in> set (journal (fst (syncPendingRecords remote w)))"
  unfolding syncPendingRecords_fst
  using assms by (intro syncLoop_posts_each distinct_getRecordsByStatus) auto

text \<open>
  Claim C7, as amended. The bounds are checked on the trimmed text.
  \<^verbatim>\<open>createRecord\<close> returns a \<^verbatim>\<open>ValidationError\<close> and leaves the world as it is
  whenever the title or the body, with the white space at both ends removed, is empty
  or longer than its bound (200 for the title, 5000 for the body). Every error return
  leaves the world as it is. A creation that succeeds has passed these checks and
  appends exactly one row: the trimmed title and body, status PENDING, no
  \<open>remoteId\<close>, no attempt, no error. Nothing validates a stored record again: a sync
  pass posts every pending row, whatever its length.
\<close>

theorem createRecord_validation:
  "(length (trim ttl) = 0 \<or> 200 < length (trim ttl) \<or> length (trim bdy) = 0 \<or> 5000 < length (trim bdy)
      \<longrightarrow> (\<exists>msg. createRecord uuid ttl bdy w = (w, Inl (ValidationError msg))))
   \<and> (\<forall>w' e. createRecord uuid ttl bdy w = (w', Inl e) \<longrightarrow> w' = w)
   \<and> (\<forall>w' r. createRecord uuid ttl bdy w = (w', Inr r) \<longrightarrow>
         0 < length (trim ttl) \<and> length (trim ttl) \<le> 200 \<and>
         0 < length (trim bdy) \<and> length (trim bdy) \<le> 5000 \<and>
         w' = w\<lparr>rows := rows w @ [\<lparr>id' = uuid, title = trim ttl, body = trim bdy,
                    createdAt = clock w, syncStatus = PENDING, remoteId = None,
                    lastSyncAttempt = None, syncError = None\<rparr>]\<rparr>)
   \<and> (\<forall>row. distinct (map id' (rows w)) \<and> row \<in> set (rows w) \<and> syncStatus row = PENDING \<longrightarrow>
         ApiPost (id' row) \<in> set (journal (fst (syncPendingRecords remote w))))"
proof (intro conjI allI impI)
  assume "length (trim ttl) = 0 \<or> 200 < length (trim ttl) \<or> length (trim bdy) = 0 \<or> 5000 < length (trim bdy)"
  then have "validateRecordInput ttl bdy \<noteq> None" by (auto simp: validateRecordInput_None)
  then obtain e where e: "validateRecordInput ttl bdy = Some e" by auto
  then obtain msg where "e = ValidationError msg" using validateRecordInput_Some by blast
  then show "\<exists>msg. createRecord uuid ttl bdy w = (w, Inl (ValidationError msg))"
    using e by (simp add: createRecord_def)
next
  fix w' e assume "createRecord uuid ttl bdy w = (w', Inl e)"
  then show "w' = w"
    by (auto simp: createRecord_def repository_createRecord_def insertRecord_def Let_def
        split: option.splits if_splits)
next
  fix w' r assume c: "createRecord uuid ttl bdy w = (w', Inr r)"
  then have v: "validateRecordInput ttl bdy = None"
    by (auto simp: createRecord_def split: option.splits)
  show "0 < length (trim ttl)" "length (trim ttl) \<le> 200" "0 < length (trim bdy)"
    "length (trim bdy) \<le> 5000"
    using v by (simp_all add: validateRecordInput_None)
  show "w' = w\<lparr>rows := rows w @ [\<lparr>id' = uuid, title = trim ttl, body = trim bdy,
                    createdAt = clock w, syncStatus = PENDING, remoteId = None,
                    lastSyncAttempt = None, syncError = None\<rparr>]\<rparr>"
    using c v
    by (auto simp: createRecord_def repository_createRecord_def insertRecord_def Let_def
        split: if_splits)
next
  fix row
  assume a: "distinct (map id' (rows w)) \<and> row \<in> set (rows w) \<and> syncStatus row = PENDING"
  then show "ApiPost (id' row) \<in> set (journal (fst (syncPendingRecords remote w)))"
    by (simp add: syncPendingRecords_posts_each)
qed

theorem createRecord_validation_witness:
  "(\<exists>msg. createRecord ''r1'' (replicate 201 (CHR ''a'')) ''B'' (emptyWorld 0)
             = (emptyWorld 0, Inl (ValidationError msg)))
   \<and> rows (fst (createRecord ''r1'' '' A '' ''B'' (emptyWorld 0))) = [exRow ''r1'' 0 PENDING]
   \<and> ApiPost ''r1'' \<in> set (journal (fst (syncPendingRecords exRemote exWorld)))"
proof -
  have t: "trim (replicate 201 (CHR ''a'')) = replicate 201 (CHR ''a'')"
    by (simp add: trim_def isWhiteSpace_def)
  have c: "createRecord ''r1'' '' A '' ''B'' (emptyWorld 0) =
      ((emptyWorld 0)\<lparr>rows := [exRow ''r1'' 0 PENDING]\<rparr>,
       Inr (Record ''r1'' ''A'' ''B'' 0 PENDING None None None))"
    by (simp add: createRecord_def validateRecordInput_def trim_def isWhiteSpace_def
        repository_createRecord_def insertRecord_def emptyWorld_def exRow_def entityToRecord_def)
  have m: "distinct (map id' (rows exWorld)) \<and> exRow ''r1'' 1 PENDING \<in> set (rows exWorld)
      \<and> syncStatus (exRow ''r1'' 1 PENDING :: SyncStatus RecordEntity) = PENDING"
    by (simp add: exWorld_def exRow_def)
  have 1: "\<exists>msg. createRecord ''r1'' (replicate 201 (CHR ''a'')) ''B'' (emptyWorld 0)
             = (emptyWorld 0, Inl (ValidationError msg))"
    using createRecord_validation [of "replicate 201 (CHR ''a'')" "''B''" "''r1''" "emptyWorld 0" exRemote]
    by (simp add: t)
  have 2: "rows (fst (createRecord ''r1'' '' A '' ''B'' (emptyWorld 0))) = [exRow ''r1'' 0 PENDING]"
    using c by simp
  have 3: "ApiPost (id' (exRow ''r1'' 1 PENDING :: SyncStatus RecordEntity))
      \<in> set (journal (fst (syncPendingRecords exRemote exWorld)))"
    using createRecord_validation [of "'' A ''" "''B''" "''r1''" exWorld exRemote] m
    by blast
  show ?thesis using 1 2 3 by (simp add: exRow_def)
qed

text \<open>
  Claim C7, as stated, fails: a title of 201 characters, 200 letters and a trailing
  space, violates the bound of 200 characters, yet \<^verbatim>\<open>createRecord\<close> returns no
  \<^verbatim>\<open>ValidationError\<close> and writes the record, with the title trimmed to 200.
\<close>

theorem createRecord_bounds_counterexample:
  "length (replicate 200 (CHR ''a'') @ '' '') = 201
   \<and> createRecord ''r1'' (replicate 200 (CHR ''a'') @ '' '') ''B'' (emptyWorld 0) =
       ((emptyWorld 0)\<lparr>rows := [(exRow ''r1'' 0 PENDING)\<lparr>title := replicate 200 (CHR ''a'')\<rparr>]\<rparr>,
        Inr (Record ''r1'' (replicate 200 (CHR ''a'')) ''B'' 0 PENDING None None None))"
  by (simp add: trim_padded createRecord_def validateRecordInput_def
      repository_createRecord_def insertRecord_def emptyWorld_def exRow_def entityToRecord_def)
    (simp add: trim_def isWhiteSpace_def)

subsection \<open>Time between attempts\<close>

lemma syncLoop_clock: "clock (fst (syncLoop remote es w)) = clock w + 100 * int (length es)"
  by (induction es arbitrary: w) (simp_all add: syncLoop_Cons_fst)

lemma syncPendingRecords_clock:
  "clock (fst (syncPendingRecords remote w)) =
     clock w + 100 * int (length (getRecordsByStatus (rows w) PENDING))"
  by (simp add: syncPendingRecords_fst syncLoop_clock)

lemma exOne_pass:
  "fst (syncPendingRecords alwaysTimeout
      \<lparr>rows = [(exRow ''r1'' 1 PENDING)\<lparr>lastSyncAttempt := a, syncError := e\<rparr>], clock = t, journal = j\<rparr>) =
   \<lparr>rows = [(exRow ''r1'' 1 PENDING)\<lparr>lastSyncAttempt := Some t, syncError := Some ''Request timeout''\<rparr>],
    clock = t + 100, journal = j @ [ApiPost ''r1'', StatusWrite ''r1'' PENDING]\<rparr>"
  by (simp add: syncPendingRecords_def getRecordsByStatus_def exRow_def syncLoop.simps
      syncRecord_def getRecordById_def createPost_def alwaysTimeout_def newApiError_def
      isPermanentError_def updateSyncStatus_def Let_def)

text \<open>
  Claim C4. The claim asks for a wait of min(1 s * 2^n, 30 s) before the next automatic
  attempt after the \<open>n\<close>-th transient failure. The code computes no such wait: the
  time a pass takes is 100 milliseconds for each pending record, whatever the remote
  service answers. A record whose POST times out in three passes in a row is attempted
  at 1000, 1100 and 1200, and the row each pass leaves differs from the one before only
  in \<open>lastSyncAttempt\<close>: no attempt count is kept that a backoff could be computed
  from.
\<close>

theorem no_backoff_between_attempts:
  "clock (fst (syncPendingRecords remote w)) =
     clock w + 100 * int (length (getRecordsByStatus (rows w) PENDING))
   \<and> run alwaysTimeout [SyncNow] exOne =
     \<lparr>rows = [(exRow ''r1'' 1 PENDING)\<lparr>lastSyncAttempt := Some 1000, syncError := Some ''Request timeout''\<rparr>],
      clock = 1100, journal = [ApiPost ''r1'', StatusWrite ''r1'' PENDING]\<rparr>
   \<and> run alwaysTimeout [SyncNow, SyncNow] exOne =
     \<lparr>rows = [(exRow ''r1'' 1 PENDING)\<lparr>lastSyncAttempt := Some 1100, syncError := Some ''Request timeout''\<rparr>],
      clock = 1200,
      journal = [ApiPost ''r1'', StatusWrite ''r1'' PENDING, ApiPost ''r1'', StatusWrite ''r1'' PENDING]\<rparr>
   \<and> run alwaysTimeout [SyncNow, SyncNow, SyncNow] exOne =
     \<lparr>rows = [(exRow ''r1'' 1 PENDING)\<lparr>lastSyncAttempt := Some 1200, syncError := Some ''Request timeout''\<rparr>],
      clock = 1300,
      journal = [ApiPost ''r1'', StatusWrite ''r1'' PENDING, ApiPost ''r1'', StatusWrite ''r1'' PENDING,
                 ApiPost ''r1'', StatusWrite ''r1'' PENDING]\<rparr>"
proof -
  have 0: "exOne = \<lparr>rows = [(exRow ''r1'' 1 PENDING)\<lparr>lastSyncAttempt := None, syncError := None\<rparr>],
     clock = 1000, journal = []\<rparr>"
    by (simp add: exOne_def exRow_def)
  show ?thesis by (simp add: 0 exOne_pass syncPendingRecords_clock)
qed

subsection \<open>The store while the send is in flight\<close>

text \<open>
  \<^verbatim>\<open>syncRecord\<close> is the function up to the POST followed by the function from the
  result of the POST, in both repositories.
\<close>

lemma syncRecord_in_steps:
  "syncRecord remote recordId w =
     (case syncRecord_checked recordId (getRecordById (rows w) recordId) w of
        (w1, Inl result) \<Rightarrow> (w1, result)
      | (w1, Inr (entity, n)) \<Rightarrow> syncRecord_settle remote recordId entity n w1)"
  by (auto simp: syncRecord_def syncRecord_checked_def syncRecord_settle_def Let_def
      split: option.splits sum.splits)

lemma RecordRepositoryImpl_syncRecord_in_steps:
  "RecordRepositoryImpl_syncRecord api recordId w =
     (case RecordRepositoryImpl_syncRecord_upToPost recordId w of
        (w1, Inl result) \<Rightarrow> (w1, result)
      | (w1, Inr (request, n)) \<Rightarrow>
          RecordRepositoryImpl_syncRecord_afterPost recordId (api n request) w1)"
  by (simp add: RecordRepositoryImpl_syncRecord_def RecordRepositoryImpl_syncRecord_upToPost_def
      RecordRepositoryImpl_syncRecord_afterPost_def Let_def posts_def
      split: option.splits call_outcome.splits)

text \<open>The row a query by identifier finds after an update of that identifier.\<close>

lemma RecordDao_getRecordById_updateSyncStatus:
  "RecordDao_getRecordById (RecordDao_updateSyncStatus tbl i status timestamp rid err) i =
     map_option (\<lambda>row. row\<lparr>syncStatus := status, remoteId := rid,
                               lastSyncAttempt := Some timestamp, syncError := err\<rparr>)
       (RecordDao_getRecordById tbl i)"
  by (induction tbl) (simp_all add: RecordDao_getRecordById_def RecordDao_updateSyncStatus_def)

lemma getRecordById_updateSyncStatus:
  "getRecordById (updateSyncStatus tbl i status rid err now) i =
     map_option (\<lambda>row. row\<lparr>syncStatus := status, remoteId := rid,
                               lastSyncAttempt := Some now, syncError := err\<rparr>)
       (getRecordById tbl i)"
  by (induction tbl) (simp_all add: getRecordById_def updateSyncStatus_def)

lemma getRecordById_updateRecord:
  "getRecordById (updateRecord tbl rcd) (id' rcd) =
     map_option (\<lambda>row. row\<lparr>title := title rcd, body := body rcd,
                               syncStatus := syncStatus rcd, remoteId := remoteId rcd,
                               lastSyncAttempt := lastSyncAttempt rcd,
                               syncError := syncError rcd\<rparr>)
       (getRecordById tbl (id' rcd))"
  by (induction tbl) (simp_all add: getRecordById_def updateRecord_def)

lemma upToPost_row:
  assumes "RecordDao_getRecordById (rows kw) i = Some e" and "syncStatus e \<noteq> K_SYNCED"
  shows "\<exists>kw1. RecordRepositoryImpl_syncRecord_upToPost i kw =
               (kw1, Inr (PostRequestDTO (title e) (body e) 1, posts kw))
           \<and> RecordDao_getRecordById (rows kw1) i =
               Some (e\<lparr>syncStatus := K_SYNCING, remoteId := None,
                       lastSyncAttempt := Some (clock kw), syncError := None\<rparr>)
           \<and> journal kw1 = journal kw @ [StatusWrite i K_SYNCING, ApiPost i]"
  using assms
  by (simp add: RecordRepositoryImpl_syncRecord_upToPost_def Let_def posts_def
      RecordDao_getRecordById_updateSyncStatus)

lemma afterPost_row:
  assumes "RecordDao_getRecordById (rows kw1) i = Some e1"
  shows "RecordDao_getRecordById (rows (fst (RecordRepositoryImpl_syncRecord_afterPost i out kw1))) i =
     Some (case out of
         Returned response \<Rightarrow>
           e1\<lparr>syncStatus := K_SYNCED, remoteId := Some (resp_id response),
              lastSyncAttempt := Some (clock kw1), syncError := None\<rparr>
       | Threw (HttpException code msg) \<Rightarrow>
           e1\<lparr>syncStatus := (if 400 \<le> code \<and> code \<le> 499 then K_FAILED else K_PENDING),
              remoteId := None, lastSyncAttempt := Some (clock kw1), syncError := msg\<rparr>
       | Threw (IOException msg) \<Rightarrow>
           e1\<lparr>syncStatus := K_PENDING, remoteId := None,
              lastSyncAttempt := Some (clock kw1), syncError := msg\<rparr>
       | Threw (Exception msg) \<Rightarrow>
           e1\<lparr>syncStatus := K_PENDING, remoteId := None,
              lastSyncAttempt := Some (clock kw1), syncError := msg\<rparr>)"
  using assms
  by (simp add: RecordRepositoryImpl_syncRecord_afterPost_def Let_def
      RecordDao_getRecordById_updateSyncStatus split: call_outcome.splits exception.splits)

lemma syncRecord_checked_rows:
  assumes "\<not> (syncStatus e = SYNCED \<and> remoteId e \<noteq> None)"
  shows "syncRecord_checked i (Some e) w = (w\<lparr>journal := journal w @ [ApiPost i]\<rparr>, Inr (e, posts w))"
  using assms by (simp add: syncRecord_checked_def)

lemma syncRecord_settle_row:
  assumes "getRecordById (rows w1) i = Some e1" and "id' e = i"
  shows "\<exists>row. getRecordById (rows (fst (syncRecord_settle remote i e n w1))) i = Some row
           \<and> syncStatus row =
               (case createPost (remote n) (entityToCreatePostDTO e) of
                  Inr response \<Rightarrow> SYNCED
                | Inl err \<Rightarrow> if isPermanentError err then FAILED else PENDING)"
proof (cases "createPost (remote n) (entityToCreatePostDTO e)")
  case (Inl err)
  then show ?thesis using assms(1)
    by (simp add: syncRecord_settle_def Let_def getRecordById_updateSyncStatus)
next
  case (Inr response)
  have "id' (mergePostResponse e response (clock w1)) = i"
    using assms(2) by (simp add: mergePostResponse_def)
  then show ?thesis
    using Inr assms(1)
      getRecordById_updateRecord [of "rows w1" "mergePostResponse e response (clock w1)"]
    by (simp add: syncRecord_settle_def Let_def mergePostResponse_def)
qed

text \<open>
  Claim C6, as amended. In the Kotlin repository every attempt (on a record that is
  found and not SYNCED) persists SYNCING before the send: in the world in which the
  call of the service is in flight, the stored row is the row as read with status
  SYNCING, and the write of it precedes the POST. When the call returns or throws, the
  repository writes SYNCED, FAILED or PENDING, according to the outcome, over the row
  then stored under the identifier. In the TypeScript repository there is no SYNCING
  state: in the world in which the POST is in flight the table is the table before
  the attempt, and when the POST resolves or rejects the final status is written in
  one write.
\<close>

theorem syncing_persisted_before_send:
  "(\<forall>e. RecordDao_getRecordById (rows kw) i = Some e \<and> syncStatus e \<noteq> K_SYNCED \<longrightarrow>
      (\<exists>kw1 request n.
          RecordRepositoryImpl_syncRecord_upToPost i kw = (kw1, Inr (request, n))
        \<and> RecordDao_getRecordById (rows kw1) i =
            Some (e\<lparr>syncStatus := K_SYNCING, remoteId := None,
                    lastSyncAttempt := Some (clock kw), syncError := None\<rparr>)
        \<and> journal kw1 = journal kw @ [StatusWrite i K_SYNCING, ApiPost i]
        \<and> (\<forall>api. RecordRepositoryImpl_syncRecord api i kw =
                    RecordRepositoryImpl_syncRecord_afterPost i (api n request) kw1)
        \<and> (\<forall>out kw2 e2. RecordDao_getRecordById (rows kw2) i = Some e2 \<longrightarrow>
              (\<exists>row. RecordDao_getRecordById
                    (rows (fst (RecordRepositoryImpl_syncRecord_afterPost i out kw2))) i = Some row
              \<and> syncStatus row =
                  (case out of
                     Returned response \<Rightarrow> K_SYNCED
                   | Threw (HttpException code msg) \<Rightarrow>
                       if 400 \<le> code \<and> code \<le> 499 then K_FAILED else K_PENDING
                   | Threw (IOException msg) \<Rightarrow> K_PENDING
                   | Threw (Exception msg) \<Rightarrow> K_PENDING)))))
   \<and> (\<forall>e. getRecordById (rows w) i = Some e \<and> \<not> (syncStatus e = SYNCED \<and> remoteId e \<noteq> None) \<longrightarrow>
      (\<exists>w1 n.
          syncRecord_checked i (getRecordById (rows w) i) w = (w1, Inr (e, n))
        \<and> rows w1 = rows w
        \<and> journal w1 = journal w @ [ApiPost i]
        \<and> (\<forall>remote. syncRecord remote i w = syncRecord_settle remote i e n w1)
        \<and> (\<forall>remote w2 e2. getRecordById (rows w2) i = Some e2 \<longrightarrow>
              (\<exists>row. getRecordById (rows (fst (syncRecord_settle remote i e n w2))) i = Some row
              \<and> syncStatus row =
                  (case createPost (remote n) (entityToCreatePostDTO e) of
                     Inr response \<Rightarrow> SYNCED
                   | Inl err \<Rightarrow> if isPermanentError err then FAILED else PENDING)))))"
proof (intro conjI allI impI)
  fix e assume a: "RecordDao_getRecordById (rows kw) i = Some e \<and> syncStatus e \<noteq> K_SYNCED"
  from upToPost_row [of kw i e] a obtain kw1 where
    k: "RecordRepositoryImpl_syncRecord_upToPost i kw =
          (kw1, Inr (PostRequestDTO (title e) (body e) 1, posts kw))"
       "RecordDao_getRecordById (rows kw1) i =
          Some (e\<lparr>syncStatus := K_SYNCING, remoteId := None,
                  lastSyncAttempt := Some (clock kw), syncError := None\<rparr>)"
       "journal kw1 = journal kw @ [StatusWrite i K_SYNCING, ApiPost i]"
    by blast
  have c: "RecordRepositoryImpl_syncRecord api i kw =
        RecordRepositoryImpl_syncRecord_afterPost i
          (api (posts kw) (PostRequestDTO (title e) (body e) 1)) kw1"
    for api
    by (simp add: RecordRepositoryImpl_syncRecord_in_steps k(1))
  have f: "\<exists>row. RecordDao_getRecordById
                    (rows (fst (RecordRepositoryImpl_syncRecord_afterPost i out kw2))) i = Some row
              \<and> syncStatus row =
                  (case out of
                     Returned response \<Rightarrow> K_SYNCED
                   | Threw (HttpException code msg) \<Rightarrow>
                       if 400 \<le> code \<and> code \<le> 499 then K_FAILED else K_PENDING
                   | Threw (IOException msg) \<Rightarrow> K_PENDING
                   | Threw (Exception msg) \<Rightarrow> K_PENDING)"
    if "RecordDao_getRecordById (rows kw2) i = Some e2" for out kw2 e2
    by (simp add: afterPost_row [OF that] split: call_outcome.splits exception.splits)
  show "\<exists>kw1 request n.
          RecordRepositoryImpl_syncRecord_upToPost i kw = (kw1, Inr (request, n))
        \<and> RecordDao_getRecordById (rows kw1) i =
            Some (e\<lparr>syncStatus := K_SYNCING, remoteId := None,
                    lastSyncAttempt := Some (clock kw), syncError := None\<rparr>)
        \<and> journal kw1 = journal kw @ [StatusWrite i K_SYNCING, ApiPost i]
        \<and> (\<forall>api. RecordRepositoryImpl_syncRecord api i kw =
                    RecordRepositoryImpl_syncRecord_afterPost i (api n request) kw1)
        \<and> (\<forall>out kw2 e2. RecordDao_getRecordById (rows kw2) i = Some e2 \<longrightarrow>
              (\<exists>row. RecordDao_getRecordById
                    (rows (fst (RecordRepositoryImpl_syncRecord_afterPost i out kw2))) i = Some row
              \<and> syncStatus row =
                  (case out of
                     Returned response \<Rightarrow> K_SYNCED
                   | Threw (HttpException code msg) \<Rightarrow>
                       if 400 \<le> code \<and> code \<le> 499 then K_FAILED else K_PENDING
                   | Threw (IOException msg) \<Rightarrow> K_PENDING
                   | Threw (Exception msg) \<Rightarrow> K_PENDING)))"
    using k c f by blast
next
  fix e assume a: "getRecordById (rows w) i = Some e \<and> \<not> (syncStatus e = SYNCED \<and> remoteId e \<noteq> None)"
  let ?w1 = "w\<lparr>journal := journal w @ [ApiPost i]\<rparr>"
  have k: "syncRecord_checked i (getRecordById (rows w) i) w = (?w1, Inr (e, posts w))"
    using a by (simp add: syncRecord_checked_rows)
  have c: "syncRecord remote i w = syncRecord_settle remote i e (posts w) ?w1" for remote
    by (simp add: syncRecord_in_steps k)
  have ide: "id' e = i" using a getRecordById_Some by blast
  have f: "\<exists>row. getRecordById (rows (fst (syncRecord_settle remote i e (posts w) w2))) i = Some row
              \<and> syncStatus row =
                  (case createPost (remote (posts w)) (entityToCreatePostDTO e) of
                     Inr response \<Rightarrow> SYNCED
                   | Inl err \<Rightarrow> if isPermanentError err then FAILED else PENDING)"
    if "getRecordById (rows w2) i = Some e2" for remote w2 e2
    using that ide by (rule syncRecord_settle_row)
  show "\<exists>w1 n.
          syncRecord_checked i (getRecordById (rows w) i) w = (w1, Inr (e, n))
        \<and> rows w1 = rows w
        \<and> journal w1 = journal w @ [ApiPost i]
        \<and> (\<forall>remote. syncRecord remote i w = syncRecord_settle remote i e n w1)
        \<and> (\<forall>remote w2 e2. getRecordById (rows w2) i = Some e2 \<longrightarrow>
              (\<exists>row. getRecordById (rows (fst (syncRecord_settle remote i e n w2))) i = Some row
              \<and> syncStatus row =
                  (case createPost (remote n) (entityToCreatePostDTO e) of
                     Inr response \<Rightarrow> SYNCED
                   | Inl err \<Rightarrow> if isPermanentError err then FAILED else PENDING)))"
    using k c f by (intro exI [of _ ?w1] exI [of _ "posts w"]) simp
qed

theorem syncing_persisted_before_send_witness:
  "(\<exists>kw1 request n.
       RecordRepositoryImpl_syncRecord_upToPost ''r1'' exKotlin = (kw1, Inr (request, n))
     \<and> RecordDao_getRecordById (rows kw1) ''r1'' =
         Some ((exRow ''r1'' 1 K_SYNCING)\<lparr>lastSyncAttempt := Some 1000\<rparr>)
     \<and> journal kw1 = [StatusWrite ''r1'' K_SYNCING, ApiPost ''r1'']
     \<and> RecordRepositoryImpl_syncRecord exApi ''r1'' exKotlin =
         RecordRepositoryImpl_syncRecord_afterPost ''r1'' (exApi n request) kw1
     \<and> (\<exists>row. RecordDao_getRecordById
            (rows (fst (RecordRepositoryImpl_syncRecord_afterPost ''r1''
                          (Threw (HttpException 422 None)) kw1))) ''r1'' = Some row
          \<and> syncStatus row = K_FAILED))
   \<and> (\<exists>w1 n.
       syncRecord_checked ''r1'' (getRecordById (rows exWorld) ''r1'') exWorld =
         (w1, Inr (exRow ''r1'' 1 PENDING, n))
     \<and> rows w1 = rows exWorld
     \<and> journal w1 = [ApiPost ''r1'']
     \<and> syncRecord exRemote ''r1'' exWorld =
         syncRecord_settle exRemote ''r1'' (exRow ''r1'' 1 PENDING) n w1
     \<and> (\<exists>row. getRecordById
            (rows (fst (syncRecord_settle alwaysTimeout ''r1'' (exRow ''r1'' 1 PENDING) n w1)))
              ''r1'' = Some row
          \<and> syncStatus row = PENDING))"
proof -
  have k: "RecordDao_getRecordById (rows exKotlin) ''r1'' = Some (exRow ''r1'' 1 K_PENDING)
      \<and> syncStatus (exRow ''r1'' 1 K_PENDING) \<noteq> K_SYNCED"
    by (simp add: exKotlin_def RecordDao_getRecordById_def exRow_def)
  have t: "getRecordById (rows exWorld) ''r1'' = Some (exRow ''r1'' 1 PENDING)
      \<and> \<not> (syncStatus (exRow ''r1'' 1 PENDING) = SYNCED
           \<and> remoteId (exRow ''r1'' 1 PENDING :: SyncStatus RecordEntity) \<noteq> None)"
    by (simp add: exWorld_def getRecordById_def exRow_def)
  note th = syncing_persisted_before_send [of exKotlin "''r1''" exWorld]
  from th k obtain kw1 request n where
    k1: "RecordRepositoryImpl_syncRecord_upToPost ''r1'' exKotlin = (kw1, Inr (request, n))"
    and k2: "RecordDao_getRecordById (rows kw1) ''r1'' =
         Some ((exRow ''r1'' 1 K_PENDING)\<lparr>syncStatus := K_SYNCING, remoteId := None,
                    lastSyncAttempt := Some (clock exKotlin), syncError := None\<rparr>)"
    and k5: "journal kw1 = journal exKotlin @ [StatusWrite ''r1'' K_SYNCING, ApiPost ''r1'']"
    and k3: "\<And>api. RecordRepositoryImpl_syncRecord api ''r1'' exKotlin =
                    RecordRepositoryImpl_syncRecord_afterPost ''r1'' (api n request) kw1"
    and k4: "\<And>out kw2 e2. RecordDao_getRecordById (rows kw2) ''r1'' = Some e2 \<Longrightarrow>
              (\<exists>row. RecordDao_getRecordById
                    (rows (fst (RecordRepositoryImpl_syncRecord_afterPost ''r1'' out kw2))) ''r1'' =
                      Some row
              \<and> syncStatus row =
                  (case out of
                     Returned response \<Rightarrow> K_SYNCED
                   | Threw (HttpException code msg) \<Rightarrow>
                       if 400 \<le> code \<and> code \<le> 499 then K_FAILED else K_PENDING
                   | Threw (IOException msg) \<Rightarrow> K_PENDING
                   | Threw (Exception msg) \<Rightarrow> K_PENDING))"
    by blast
  have k2': "RecordDao_getRecordById (rows kw1) ''r1'' =
         Some ((exRow ''r1'' 1 K_SYNCING)\<lparr>lastSyncAttempt := Some 1000\<rparr>)"
    using k2 by (simp add: exRow_def exKotlin_def)
  have k5': "journal kw1 = [StatusWrite ''r1'' K_SYNCING, ApiPost ''r1'']"
    using k5 by (simp add: exKotlin_def)
  have k4': "\<exists>row. RecordDao_getRecordById
            (rows (fst (RecordRepositoryImpl_syncRecord_afterPost ''r1''
                          (Threw (HttpException 422 None)) kw1))) ''r1'' = Some row
          \<and> syncStatus row = K_FAILED"
    using k4 [OF k2, of "Threw (HttpException 422 None)"] by simp
  from th t obtain w1 m where
    t1: "syncRecord_checked ''r1'' (getRecordById (rows exWorld) ''r1'') exWorld =
           (w1, Inr (exRow ''r1'' 1 PENDING, m))"
    and t2: "rows w1 = rows exWorld"
    and t5: "journal w1 = journal exWorld @ [ApiPost ''r1'']"
    and t3: "\<And>remote. syncRecord remote ''r1'' exWorld =
               syncRecord_settle remote ''r1'' (exRow ''r1'' 1 PENDING) m w1"
    and t4: "\<And>remote w2 e2. getRecordById (rows w2) ''r1'' = Some e2 \<Longrightarrow>
              (\<exists>row. getRecordById
                    (rows (fst (syncRecord_settle remote ''r1'' (exRow ''r1'' 1 PENDING) m w2)))
                      ''r1'' = Some row
              \<and> syncStatus row =
                  (case createPost (remote m)
                          (entityToCreatePostDTO (exRow ''r1'' 1 PENDING :: SyncStatus RecordEntity)) of
                     Inr response \<Rightarrow> SYNCED
                   | Inl err \<Rightarrow> if isPermanentError err then FAILED else PENDING))"
    by blast
  have t0: "getRecordById (rows w1) ''r1'' = Some (exRow ''r1'' 1 PENDING)"
    using t t2 by simp
  have t5': "journal w1 = [ApiPost ''r1'']"
    using t5 by (simp add: exWorld_def)
  have t4': "\<exists>row. getRecordById
            (rows (fst (syncRecord_settle alwaysTimeout ''r1'' (exRow ''r1'' 1 PENDING) m w1)))
              ''r1'' = Some row
          \<and> syncStatus row = PENDING"
    using t4 [OF t0, of alwaysTimeout]
    by (simp add: createPost_def alwaysTimeout_def newApiError_def isPermanentError_def)
  show ?thesis
    using k1 k2' k5' k3 [of exApi] k4' t1 t2 t5' t3 [of exRemote] t4' by blast
qed

text \<open>
  Claim C6, as stated, fails on the TypeScript repository: the first effect of the
  attempt on the pending record \<open>r2\<close> is the POST, nothing is persisted before it,
  and the row goes from PENDING to SYNCED in the single write that follows.
\<close>

theorem syncRecord_no_syncing_counterexample:
  "getRecordById (rows exWorld) ''r2'' = Some (exRow ''r2'' 2 PENDING)
   \<and> journal exWorld = []
   \<and> journal (fst (syncRecord exRemote ''r2'' exWorld)) = [ApiPost ''r2'', StatusWrite ''r2'' SYNCED]
   \<and> getRecordById (rows (fst (syncRecord exRemote ''r2'' exWorld))) ''r2'' =
       Some ((exRow ''r2'' 2 PENDING)\<lparr>syncStatus := SYNCED, remoteId := Some 101,
               lastSyncAttempt := Some 1000, syncError := None\<rparr>)"
  by (simp add: exWorld_def exRow_def getRecordById_def syncRecord_def createPost_def exRemote_def
      posts_def entityToCreatePostDTO_def mergePostResponse_def updateRecord_def Let_def)

subsection \<open>Process start\<close>

text \<open>
  \<^verbatim>\<open>initDatabase\<close> in a new process opens the database and creates the table if it
  is absent; the rows on disk are served as the last process left them.
\<close>

lemma initDatabase_keeps_rows:
  "storedRows (initDatabase (processStart d)) = storedRows d
   \<and> table (initDatabase (processStart d)) = Some (storedRows d)
   \<and> dbInstance (initDatabase (processStart d))"
  by (simp add: storedRows_def initDatabase_def processStart_def split: option.splits)


subsection \<open>Passes in flight\<close>

lemmas trace_defs = exApp_def exOne_def exRow_def startPass_def getRecordsByStatus_def resume_def
  syncRecord_checked_def syncRecord_settle_def getRecordById_def createPost_def
  alwaysTimeout_def acceptAll_def refuseFirst_def timeoutSecond_def newApiError_def
  isPermanentError_def updateSyncStatus_def updateRecord_def mergePostResponse_def posts_def
  entityToCreatePostDTO_def Let_def statuses_def show_int_def

text \<open>
  Claim C9. \<^verbatim>\<open>triggerSync\<close> alone is guarded: a second call while its pass is in
  flight starts nothing. The use case \<^verbatim>\<open>syncRecords\<close> and the network listener
  start a pass whatever is in flight: two calls of \<^verbatim>\<open>syncRecords\<close>, or a call of
  \<^verbatim>\<open>triggerSync\<close> followed by the network becoming reachable, leave two passes
  active, both holding the same pending record. Both post it before either writes:
  the record is posted twice, whether the service times out or accepts.
\<close>

theorem second_pass_starts_while_one_is_active:
  "inFlight (handleAll alwaysTimeout [TriggerSync, TriggerSync] exApp) = [(True, Idle, [''r1''])]
   \<and> inFlight (handleAll alwaysTimeout [SyncRecords, SyncRecords] exApp) =
       [(False, Idle, [''r1'']), (False, Idle, [''r1''])]
   \<and> inFlight (handleAll alwaysTimeout [TriggerSync, NetworkChange True] exApp) =
       [(True, Idle, [''r1'']), (False, Idle, [''r1''])]
   \<and> journal (store (handleAll alwaysTimeout
        [SyncRecords, SyncRecords, Resume 0, Resume 1, Resume 0, Resume 1, Resume 0, Resume 1]
        exApp)) =
       [ApiPost ''r1'', ApiPost ''r1'', StatusWrite ''r1'' PENDING, StatusWrite ''r1'' PENDING]
   \<and> journal (store (handleAll acceptAll
        [SyncRecords, SyncRecords, Resume 0, Resume 1, Resume 0, Resume 1, Resume 0, Resume 1]
        exApp)) =
       [ApiPost ''r1'', ApiPost ''r1'', StatusWrite ''r1'' SYNCED, StatusWrite ''r1'' SYNCED]"
  by (simp add: trace_defs)

text \<open>
  Claim C5. Terminal states are not sticky when passes overlap. Two passes are started
  by the use case \<^verbatim>\<open>syncRecords\<close> and both hold the pending record \<open>r1\<close>. With a
  service that refuses the first POST with status 422, the first pass leaves the
  record FAILED; the second pass, a plain sync pass, then posts the FAILED record and
  makes it SYNCED, with no retry of the failed records. With a service that accepts,
  the first pass leaves the record SYNCED with the remote identifier 101, and the
  write of the second pass changes the remote identifier to 102.
\<close>

theorem terminal_states_changed_by_pass_in_flight:
  "statuses (store (handleAll refuseFirst
      [SyncRecords, SyncRecords, Resume 0, Resume 0, Resume 0] exApp)) = [(FAILED, None)]
   \<and> journal (store (handleAll refuseFirst
      [SyncRecords, SyncRecords, Resume 0, Resume 0, Resume 0] exApp)) =
       [ApiPost ''r1'', StatusWrite ''r1'' FAILED]
   \<and> statuses (store (handleAll refuseFirst
      [SyncRecords, SyncRecords, Resume 0, Resume 0, Resume 0, Resume 1, Resume 1, Resume 1]
      exApp)) = [(SYNCED, Some 102)]
   \<and> journal (store (handleAll refuseFirst
      [SyncRecords, SyncRecords, Resume 0, Resume 0, Resume 0, Resume 1, Resume 1, Resume 1]
      exApp)) =
       [ApiPost ''r1'', StatusWrite ''r1'' FAILED, ApiPost ''r1'', StatusWrite ''r1'' SYNCED]
   \<and> statuses (store (handleAll acceptAll
      [SyncRecords, SyncRecords, Resume 0, Resume 1, Resume 0, Resume 1, Resume 0] exApp)) =
       [(SYNCED, Some 101)]
   \<and> statuses (store (handleAll acceptAll
      [SyncRecords, SyncRecords, Resume 0, Resume 1, Resume 0, Resume 1, Resume 0, Resume 1]
      exApp)) = [(SYNCED, Some 102)]"
  by (simp add: trace_defs)

text \<open>
  The guard of \<^verbatim>\<open>syncRecord\<close> reads the status: the TypeScript one returns early
  for a row that is SYNCED and has a \<open>remoteId\<close>, the Kotlin one for a row that is
  SYNCED. A pending row that has a \<open>remoteId\<close>, as a direct call of
  \<^verbatim>\<open>updateSyncStatus\<close> can leave it, is posted by both.
\<close>

lemma syncRecord_posts_pending_row_with_remoteId:
  "journal (fst (syncRecord acceptAll ''r1''
      (exOne\<lparr>rows := [(exRow ''r1'' 1 PENDING)\<lparr>remoteId := Some 55\<rparr>]\<rparr>))) =
     [ApiPost ''r1'', StatusWrite ''r1'' SYNCED]
   \<and> journal (fst (RecordRepositoryImpl_syncRecord exApi ''r1''
      (exKotlin\<lparr>rows := [(exRow ''r1'' 1 K_PENDING)\<lparr>remoteId := Some 55\<rparr>]\<rparr>))) =
     [StatusWrite ''r1'' K_SYNCING, ApiPost ''r1'', StatusWrite ''r1'' K_SYNCED]"
  by (simp add: syncRecord_def RecordRepositoryImpl_syncRecord_def exOne_def exKotlin_def exRow_def
      getRecordById_def RecordDao_getRecordById_def createPost_def acceptAll_def exApi_def
      posts_def entityToCreatePostDTO_def mergePostResponse_def Let_def)

text \<open>
  Claim C2. A record whose \<open>remoteId\<close> is set is sent again when passes overlap. Two
  passes are started by the use case \<^verbatim>\<open>syncRecords\<close> and both post the pending
  record \<open>r1\<close>; the service accepts the first POST and lets the second time out. The
  first pass leaves the record SYNCED with the remote identifier 101. The failure
  write of the second pass then stores PENDING and no remote identifier. Both passes
  end, and the next pass posts the record a third time and stores the remote
  identifier 103.
\<close>

theorem record_with_remoteId_sent_again:
  "statuses (store (handleAll timeoutSecond
      [SyncRecords, SyncRecords, Resume 0, Resume 1, Resume 0, Resume 1, Resume 0] exApp)) =
       [(SYNCED, Some 101)]
   \<and> statuses (store (handleAll timeoutSecond
      [SyncRecords, SyncRecords, Resume 0, Resume 1, Resume 0, Resume 1, Resume 0, Resume 1]
      exApp)) = [(PENDING, None)]
   \<and> inFlight (handleAll timeoutSecond
      [SyncRecords, SyncRecords, Resume 0, Resume 1, Resume 0, Resume 1, Resume 0, Resume 1,
       Resume 0, Resume 0] exApp) = []
   \<and> journal (store (handleAll timeoutSecond
      [SyncRecords, SyncRecords, Resume 0, Resume 1, Resume 0, Resume 1, Resume 0, Resume 1,
       Resume 0, Resume 0, SyncRecords, Resume 0, Resume 0, Resume 0] exApp)) =
       [ApiPost ''r1'', ApiPost ''r1'', StatusWrite ''r1'' SYNCED, StatusWrite ''r1'' PENDING,
        ApiPost ''r1'', StatusWrite ''r1'' SYNCED]
   \<and> statuses (store (handleAll timeoutSecond
      [SyncRecords, SyncRecords, Resume 0, Resume 1, Resume 0, Resume 1, Resume 0, Resume 1,
       Resume 0, Resume 0, SyncRecords, Resume 0, Resume 0, Resume 0] exApp)) =
       [(SYNCED, Some 103)]"
  by (simp add: trace_defs)

end
